theory Spec2Isabelle
  imports Main
begin

section \<open>NovaEdit: a shallow embedding of the terminal editing engine\<close>

text \<open>
  The editor of \<^verbatim>\<open>NovaEdit.py\<close> keeps one process-wide \<^verbatim>\<open>EditorState\<close> object
  \<^verbatim>\<open>E\<close>; every command reads and mutates it. Here the state is a record that each
  command takes and returns. A Python exception is a value \<open>Inl e\<close> of a sum type; the
  one recursion of the source that need not end (\<^verbatim>\<open>EditorRow.update_syntax\<close> calling
  itself on another row) is a \<^theory_text>\<open>partial_function\<close> into \<open>option\<close>, \<open>None\<close>
  standing for a call that never returns. Python's \<^verbatim>\<open>int\<close> is \<open>int\<close>, a Python
  \<^verbatim>\<open>str\<close> is a \<open>string\<close> of one-column characters.
\<close>

subsection \<open>Python's sequences\<close>

datatype error = IndexError string | TypeError

type_synonym 'a result = "(error + 'a) option"

text \<open>\<^verbatim>\<open>xs[i]\<close>: a negative index counts from the end, an index out of range raises.\<close>

definition py_index :: "'a list \<Rightarrow> int \<Rightarrow> nat option" where
  "py_index xs i =
     (let n = int (length xs); j = (if i < 0 then n + i else i)
      in if 0 \<le> j \<and> j < n then Some (nat j) else None)"

definition list_index :: error where
  "list_index = IndexError ''list index out of range''"

definition string_index :: error where
  "string_index = IndexError ''string index out of range''"

definition py_get :: "'a list \<Rightarrow> int \<Rightarrow> error + 'a" where
  "py_get xs i = (case py_index xs i of None \<Rightarrow> Inl list_index | Some j \<Rightarrow> Inr (xs ! j))"

definition str_get :: "string \<Rightarrow> int \<Rightarrow> error + char" where
  "str_get s i = (case py_index s i of None \<Rightarrow> Inl string_index | Some j \<Rightarrow> Inr (s ! j))"

text \<open>A slice bound is clamped into \<open>0 .. len\<close> after a negative one is counted from the end.\<close>

definition py_bound :: "'a list \<Rightarrow> int \<Rightarrow> nat" where
  "py_bound xs i =
     (let n = int (length xs); j = (if i < 0 then n + i else i)
      in if j < 0 then 0 else if n < j then length xs else nat j)"

definition slice_to :: "'a list \<Rightarrow> int \<Rightarrow> 'a list" where
  \<comment> \<open>\<^verbatim>\<open>xs[:i]\<close>\<close>
  "slice_to xs i = take (py_bound xs i) xs"

definition slice_from :: "'a list \<Rightarrow> int \<Rightarrow> 'a list" where
  \<comment> \<open>\<^verbatim>\<open>xs[i:]\<close>\<close>
  "slice_from xs i = drop (py_bound xs i) xs"

definition slice :: "'a list \<Rightarrow> int \<Rightarrow> int \<Rightarrow> 'a list" where
  \<comment> \<open>\<^verbatim>\<open>xs[i:j]\<close>\<close>
  "slice xs i j = drop (py_bound xs i) (take (py_bound xs j) xs)"

definition py_insert :: "'a list \<Rightarrow> int \<Rightarrow> 'a \<Rightarrow> 'a list" where
  \<comment> \<open>\<^verbatim>\<open>xs.insert(i, x)\<close> never raises: the position is clamped like a slice bound\<close>
  "py_insert xs i x = take (py_bound xs i) xs @ x # drop (py_bound xs i) xs"

definition py_del :: "'a list \<Rightarrow> int \<Rightarrow> error + 'a list" where
  \<comment> \<open>\<^verbatim>\<open>del xs[i]\<close>\<close>
  "py_del xs i =
     (case py_index xs i of None \<Rightarrow> Inl (IndexError ''list assignment index out of range'')
      | Some j \<Rightarrow> Inr (take j xs @ drop (Suc j) xs))"

text \<open>\<^verbatim>\<open>s.startswith(p, i)\<close> for \<open>0 \<le> i \<le> len(s)\<close>, the only way the source calls it.\<close>

definition startswith :: "string \<Rightarrow> string \<Rightarrow> nat \<Rightarrow> bool" where
  "startswith s p i = (take (length p) (drop i s) = p)"

definition endswith :: "string \<Rightarrow> string \<Rightarrow> bool" where
  "endswith s p = (length p \<le> length s \<and> drop (length s - length p) s = p)"

text \<open>\<^verbatim>\<open>sep.join(xs)\<close> and \<^verbatim>\<open>s.split(sep)\<close> for a one-character separator.\<close>

fun join :: "char \<Rightarrow> string list \<Rightarrow> string" where
  "join c [] = []"
| "join c [x] = x"
| "join c (x # y # ys) = x @ c # join c (y # ys)"

fun split :: "char \<Rightarrow> string \<Rightarrow> string list" where
  "split c [] = [[]]"
| "split c (x # xs) =
     (if x = c then [] # split c xs
      else (case split c xs of [] \<Rightarrow> [[x]] | l # ls \<Rightarrow> (x # l) # ls))"

definition rstrip :: "char list \<Rightarrow> string \<Rightarrow> string" where
  \<comment> \<open>\<^verbatim>\<open>s.rstrip(chars)\<close>: drop every trailing character that is in \<open>chars\<close>\<close>
  "rstrip cs s = rev (dropWhile (\<lambda>c. c \<in> set cs) (rev s))"

definition TAB :: char where "TAB = CHR 0x09"
definition NL :: char where "NL = CHR 0x0A"
definition CR :: char where "CR = CHR 0x0D"

text \<open>\<^verbatim>\<open>str.isspace\<close> and \<^verbatim>\<open>str.isdigit\<close> on the code points below 256.\<close>

definition isspace :: "char \<Rightarrow> bool" where
  "isspace c =
     (let n = (of_char c :: nat)
      in (9 \<le> n \<and> n \<le> 13) \<or> (28 \<le> n \<and> n \<le> 32) \<or> n = 133 \<or> n = 160)"

definition isdigit :: "char \<Rightarrow> bool" where
  "isdigit c =
     (let n = (of_char c :: nat)
      in (48 \<le> n \<and> n \<le> 57) \<or> n = 178 \<or> n = 179 \<or> n = 185)"

subsection \<open>Syntax table\<close>

datatype hl =
  HL_NORMAL | HL_NONPRINT | HL_COMMENT | HL_MLCOMMENT | HL_KEYWORD1 | HL_KEYWORD2
  | HL_STRING | HL_NUMBER | HL_MATCH

record editor_syntax =
  file_extensions :: "string list"
  keyword_list :: "string list"
  singleline_comment_start :: string
  multiline_comment_start :: string
  multiline_comment_end :: string
  flags :: nat

definition C_EXTENSIONS :: "string list" where
  "C_EXTENSIONS = [''.c'', ''.h'', ''.cpp'', ''.hpp'', ''.cc'']"

definition C_KEYWORDS :: "string list" where
  "C_KEYWORDS =
    [''auto'', ''break'', ''case'', ''continue'', ''default'', ''do'', ''else'', ''enum'',
     ''extern'', ''for'', ''goto'', ''if'', ''register'', ''return'', ''sizeof'', ''static'',
     ''struct'', ''switch'', ''typedef'', ''union'', ''volatile'', ''while'', ''NULL'',
     ''alignas'', ''alignof'', ''and'', ''and_eq'', ''asm'', ''bitand'', ''bitor'', ''class'',
     ''compl'', ''constexpr'', ''const_cast'', ''deltype'', ''delete'', ''dynamic_cast'',
     ''explicit'', ''export'', ''false'', ''friend'', ''inline'', ''mutable'', ''namespace'',
     ''new'', ''noexcept'', ''not'', ''not_eq'', ''nullptr'', ''operator'', ''or'', ''or_eq'',
     ''private'', ''protected'', ''public'', ''reinterpret_cast'', ''static_assert'',
     ''static_cast'', ''template'', ''this'', ''thread_local'', ''throw'', ''true'', ''try'',
     ''typeid'', ''typename'', ''virtual'', ''xor'', ''xor_eq'',
     ''int|'', ''long|'', ''double|'', ''float|'', ''char|'', ''unsigned|'', ''signed|'',
     ''void|'', ''short|'', ''auto|'', ''const|'', ''bool|'']"

definition CLIKE_EXTENSIONS :: "string list" where
  "CLIKE_EXTENSIONS = [''.clike'']"

definition CLIKE_KEYWORDS :: "string list" where
  "CLIKE_KEYWORDS =
    [''if'', ''else'', ''while'', ''for'', ''return'', ''print'',
     ''int|'', ''float|'', ''void|'', ''char|'', ''string|'']"

definition JS_EXTENSIONS :: "string list" where
  "JS_EXTENSIONS = [''.js'']"

definition JS_KEYWORDS :: "string list" where
  "JS_KEYWORDS =
    [''function'', ''var'', ''let'', ''const'', ''if'', ''else'', ''switch'', ''case'',
     ''default'', ''for'', ''while'', ''do'', ''break'', ''continue'', ''return'', ''try'',
     ''catch'', ''throw'', ''new'', ''this'', ''typeof'', ''instanceof'', ''true'', ''false'',
     ''null'', ''undefined'',
     ''Number|'', ''String|'', ''Boolean|'', ''Object|'', ''Array|'', ''Function|'']"

definition PY_EXTENSIONS :: "string list" where
  "PY_EXTENSIONS = [''.py'']"

definition PY_KEYWORDS :: "string list" where
  "PY_KEYWORDS =
    [''and'', ''as'', ''assert'', ''break'', ''class'', ''continue'', ''def'', ''del'', ''elif'',
     ''else'', ''except'', ''finally'', ''for'', ''from'', ''global'', ''if'', ''import'',
     ''in'', ''is'', ''lambda'', ''nonlocal'', ''not'', ''or'', ''pass'', ''raise'', ''return'',
     ''try'', ''while'', ''with'', ''yield'',
     ''True|'', ''False|'', ''None|'']"

definition SYNTAX_DB :: "editor_syntax list" where
  "SYNTAX_DB =
    [\<lparr>file_extensions = C_EXTENSIONS, keyword_list = C_KEYWORDS,
      singleline_comment_start = ''//'', multiline_comment_start = ''/*'',
      multiline_comment_end = ''*/'', flags = 3\<rparr>,
     \<lparr>file_extensions = CLIKE_EXTENSIONS, keyword_list = CLIKE_KEYWORDS,
      singleline_comment_start = ''//'', multiline_comment_start = ''/*'',
      multiline_comment_end = ''*/'', flags = 3\<rparr>,
     \<lparr>file_extensions = JS_EXTENSIONS, keyword_list = JS_KEYWORDS,
      singleline_comment_start = ''//'', multiline_comment_start = ''/*'',
      multiline_comment_end = ''*/'', flags = 3\<rparr>,
     \<lparr>file_extensions = PY_EXTENSIONS, keyword_list = PY_KEYWORDS,
      singleline_comment_start = ''#'', multiline_comment_start = '''',
      multiline_comment_end = '''', flags = 3\<rparr>]"

text \<open>
  \<^verbatim>\<open>select_syntax_highlight\<close>: the first syntax of the table one of whose extensions
  ends the file name; the caller stores the result in \<^verbatim>\<open>E.current_syntax\<close>.
\<close>

definition select_syntax_highlight :: "string option \<Rightarrow> editor_syntax option" where
  "select_syntax_highlight file_name =
     (case file_name of None \<Rightarrow> None
      | Some f \<Rightarrow> find (\<lambda>syntax. \<exists>ext \<in> set (file_extensions syntax). endswith f ext) SYNTAX_DB)"

subsection \<open>The highlighter\<close>

definition is_separator :: "char \<Rightarrow> bool" where
  "is_separator ch = (ch = CHR 0x00 \<or> isspace ch \<or> ch \<in> set '',.()+-/*=~%[];'')"

text \<open>\<^verbatim>\<open>for j in range(n): if i + j < len(line): highlight[i + j] = v\<close>\<close>

definition paint :: "hl list \<Rightarrow> nat \<Rightarrow> nat \<Rightarrow> hl \<Rightarrow> hl list" where
  "paint highlight i n v = fold (\<lambda>j h. h[i + j := v]) [0..<n] highlight"

text \<open>
  The keyword loop of the scanner: the first keyword that matches at \<open>i\<close> and is followed
  by a separator or the end of the line, as its length and its class.
\<close>

fun match_keyword :: "string \<Rightarrow> nat \<Rightarrow> string list \<Rightarrow> (nat \<times> hl) option" where
  "match_keyword line i [] = None"
| "match_keyword line i (kw # kws) =
     (let kw2 = endswith kw ''|'';
          klen = (if kw2 then length kw - 1 else length kw)
      in if slice line (int i) (int (i + klen)) = slice_to kw (int klen)
            \<and> (i + klen \<ge> length line \<or> is_separator (line ! (i + klen)))
         then Some (klen, if kw2 then HL_KEYWORD2 else HL_KEYWORD1)
         else match_keyword line i kws)"

text \<open>
  The \<^verbatim>\<open>while i < len(line)\<close> loop of \<^verbatim>\<open>get_syntax_highlighting\<close>, one call per
  iteration; \<open>in_string\<close> is \<open>None\<close> for the source's empty string.
\<close>

lemma startswith_fits: "startswith s p i \<Longrightarrow> i < length s \<Longrightarrow> i + length p \<le> length s"
proof -
  assume a: "startswith s p i" and b: "i < length s"
  have "length (take (length p) (drop i s)) = length p"
    using a by (simp add: startswith_def)
  then show ?thesis using b by simp
qed

function scan ::
  "editor_syntax \<Rightarrow> string \<Rightarrow> nat \<Rightarrow> bool \<Rightarrow> char option \<Rightarrow> bool \<Rightarrow> hl list \<Rightarrow> hl list \<times> bool"
where
  "scan syntax line i prev_sep in_string in_comment highlight =
    (if \<not> i < length line then (highlight, in_comment)
     else if singleline_comment_start syntax \<noteq> [] \<and> in_string = None \<and> \<not> in_comment
             \<and> startswith line (singleline_comment_start syntax) i
     then (paint highlight i (length line - i) HL_COMMENT, False)
     else if in_comment then
       (if multiline_comment_end syntax \<noteq> []
           \<and> startswith line (multiline_comment_end syntax) i
           \<and> length (multiline_comment_end syntax) > 0
        then scan syntax line (i + length (multiline_comment_end syntax)) True in_string False
               (paint (highlight[i := HL_MLCOMMENT]) i (length (multiline_comment_end syntax))
                  HL_MLCOMMENT)
        else scan syntax line (i + 1) False in_string True (highlight[i := HL_MLCOMMENT]))
     else if multiline_comment_start syntax \<noteq> []
             \<and> startswith line (multiline_comment_start syntax) i
             \<and> length (multiline_comment_start syntax) > 0
     then scan syntax line (i + length (multiline_comment_start syntax)) False in_string True
            (paint highlight i (length (multiline_comment_start syntax)) HL_MLCOMMENT)
     else if in_string \<noteq> None then
       (if line ! i = CHR 0x5C \<and> i + 1 < length line
        then scan syntax line (i + 2) False in_string in_comment
               (highlight[i := HL_STRING, i + 1 := HL_STRING])
        else scan syntax line (i + 1) prev_sep
               (if Some (line ! i) = in_string then None else in_string) in_comment
               (highlight[i := HL_STRING]))
     else if line ! i = CHR ''\"'' \<or> line ! i = CHR 0x27
     then scan syntax line (i + 1) False (Some (line ! i)) in_comment (highlight[i := HL_STRING])
     else if (isdigit (line ! i) \<and> (prev_sep \<or> (i > 0 \<and> highlight ! (i - 1) = HL_NUMBER)))
             \<or> (line ! i = CHR ''.'' \<and> i > 0 \<and> highlight ! (i - 1) = HL_NUMBER)
     then scan syntax line (i + 1) False in_string in_comment (highlight[i := HL_NUMBER])
     else if prev_sep then
       (case match_keyword line i (keyword_list syntax) of
          Some (klen, hl_type) \<Rightarrow>
            scan syntax line (i + klen) False in_string in_comment (paint highlight i klen hl_type)
        | None \<Rightarrow>
            scan syntax line (i + 1) (is_separator (line ! i)) in_string in_comment highlight)
     else scan syntax line (i + 1) (is_separator (line ! i)) in_string in_comment highlight)"
  by pat_completeness auto
termination
proof (relation "measure (\<lambda>(syntax, line, i, prev_sep, in_string, in_comment, highlight).
        2 * (length line - i) + (if prev_sep then 1 else 0))", goal_cases)
  case 1
  show ?case by simp
next
  case (2 syn line i prev_sep in_string in_comment highlight)
  then show ?case
    using startswith_fits [of line "multiline_comment_end syn" i]
    by (cases "multiline_comment_end syn") auto
next
  case (4 syn line i prev_sep in_string in_comment highlight)
  then show ?case
    using startswith_fits [of line "multiline_comment_start syn" i]
    by (cases "multiline_comment_start syn") auto
qed (simp_all split: if_splits, arith+)

declare scan.simps [simp del]

definition get_syntax_highlighting ::
  "string \<Rightarrow> editor_syntax option \<Rightarrow> bool \<Rightarrow> hl list \<times> bool" where
  "get_syntax_highlighting line syntax prev_open_comment =
     (case syntax of
        None \<Rightarrow> (replicate (length line) HL_NORMAL, False)
      | Some s \<Rightarrow>
          scan s line 0 True None prev_open_comment (replicate (length line) HL_NORMAL))"

subsection \<open>Results of commands\<close>

text \<open>
  A command returns (\<open>Ok\<close>), raises (\<open>Raise\<close>) or, for \<open>None\<close>, never returns.
\<close>

abbreviation Ok :: "'a \<Rightarrow> 'a result" where
  "Ok x \<equiv> Some (Inr x)"

abbreviation Raise :: "error \<Rightarrow> 'a result" where
  "Raise e \<equiv> Some (Inl e)"

definition rbind :: "'a result \<Rightarrow> ('a \<Rightarrow> 'b result) \<Rightarrow> 'b result" where
  "rbind m f = (case m of None \<Rightarrow> None | Some (Inl e) \<Rightarrow> Some (Inl e) | Some (Inr x) \<Rightarrow> f x)"

lemma rbind_simps [simp]:
  "rbind (Ok x) f = f x"
  "rbind (Raise e) f = Raise e"
  "rbind None f = None"
  by (simp_all add: rbind_def)

lemma rbind_Ok_iff:
  "rbind m f = Ok y \<longleftrightarrow> (\<exists>x. m = Ok x \<and> f x = Ok y)"
  by (auto simp: rbind_def split: option.splits sum.splits)

subsection \<open>Rows\<close>

record editor_row =
  index :: int
  content :: string
  content_size :: int
  rendered_content :: string
  rendered_size :: int
  highlight :: "hl list"
  open_comment :: bool

text \<open>
  \<^verbatim>\<open>EditorRow.has_open_comment\<close>. An empty \<open>highlight\<close> is falsy like the \<^verbatim>\<open>None\<close>
  a row starts with; \<^verbatim>\<open>rendered_content[-2]\<close> raises on a string shorter than two.
\<close>

definition has_open_comment :: "editor_row \<Rightarrow> error + bool" where
  "has_open_comment self =
     (if highlight self \<noteq> [] \<and> rendered_size self \<noteq> 0 \<and> last (highlight self) = HL_MLCOMMENT
      then (if rendered_size self < 2 then Inr True
            else (case str_get (rendered_content self) (- 2) of
                    Inl e \<Rightarrow> Inl e
                  | Inr c2 \<Rightarrow>
                      if c2 \<noteq> CHR ''*'' then Inr True
                      else (case str_get (rendered_content self) (- 1) of
                              Inl e \<Rightarrow> Inl e
                            | Inr c1 \<Rightarrow> Inr (c1 \<noteq> CHR ''/''))))
      else Inr False)"

text \<open>\<^verbatim>\<open>prev_open_comment = self.index > 0 and E.rows[self.index - 1].has_open_comment()\<close>\<close>

definition prev_open_comment :: "editor_row list \<Rightarrow> int \<Rightarrow> error + bool" where
  "prev_open_comment rs idx =
     (if idx > 0
      then (case py_get rs (idx - 1) of Inl e \<Rightarrow> Inl e | Inr prev \<Rightarrow> has_open_comment prev)
      else Inr False)"

text \<open>
  \<^verbatim>\<open>EditorRow.update_syntax\<close> of the row object at position \<open>p\<close> of \<^verbatim>\<open>E.rows\<close>
  (\<open>rs\<close>), under \<^verbatim>\<open>E.current_syntax\<close> (\<open>syn\<close>) and \<^verbatim>\<open>E.total_rows\<close> (\<open>n_rows\<close>).
  The source is caught by \<^verbatim>\<open>save_file_terminal\<close>, so an exception comes with the rows
  as they are when it is raised. The nested call is on the object \<^verbatim>\<open>E.rows[self.index + 1]\<close>,
  which need not be the next one of the list: the function is partial.
\<close>

partial_function (option) update_syntax ::
  "editor_syntax option \<Rightarrow> int \<Rightarrow> editor_row list \<Rightarrow> nat
     \<Rightarrow> ((error \<times> editor_row list) + editor_row list) option"
where
  "update_syntax syn n_rows rs p =
     (let rs1 = rs[p := (rs ! p)\<lparr>highlight := replicate (nat (rendered_size (rs ! p))) HL_NORMAL\<rparr>]
      in if syn = None then Some (Inr rs1)
         else (case prev_open_comment rs1 (index (rs1 ! p)) of
                 Inl e \<Rightarrow> Some (Inl (e, rs1))
               | Inr prev_open \<Rightarrow>
                   (let r = get_syntax_highlighting (rendered_content (rs1 ! p)) syn prev_open;
                        new_open_comment = snd r;
                        rs2 = rs1[p := (rs1 ! p)\<lparr>highlight := fst r\<rparr>]
                    in if open_comment (rs2 ! p) \<noteq> new_open_comment
                          \<and> index (rs2 ! p) + 1 < n_rows
                       then (case py_index rs2 (index (rs2 ! p) + 1) of
                               None \<Rightarrow> Some (Inl (list_index, rs2))
                             | Some q \<Rightarrow>
                                 Option.bind (update_syntax syn n_rows rs2 q)
                                   (\<lambda>res. case res of
                                      Inl e \<Rightarrow> Some (Inl e)
                                    | Inr rs3 \<Rightarrow>
                                        Some (Inr (rs3[p := (rs3 ! p)
                                                     \<lparr>open_comment := new_open_comment\<rparr>]))))
                       else Some (Inr (rs2[p := (rs2 ! p)\<lparr>open_comment := new_open_comment\<rparr>])))))"

declare update_syntax.simps [code]

text \<open>Outside \<^verbatim>\<open>save_file_terminal\<close> nothing catches: only the exception is kept.\<close>

definition uncaught :: "((error \<times> 'b) + 'a) option \<Rightarrow> 'a result" where
  "uncaught m = map_option (map_sum fst id) m"

definition expand_tabs :: "string \<Rightarrow> string" where
  \<comment> \<open>\<^verbatim>\<open>content.replace('\t', '        ')\<close>\<close>
  "expand_tabs s = concat (map (\<lambda>c. if c = TAB then replicate 8 CHR '' '' else [c]) s)"

text \<open>\<^verbatim>\<open>EditorRow.update_rendered\<close> of the row object at position \<open>p\<close>.\<close>

definition update_rendered ::
  "editor_syntax option \<Rightarrow> int \<Rightarrow> editor_row list \<Rightarrow> nat \<Rightarrow> editor_row list result" where
  "update_rendered syn n_rows rs p =
     uncaught (update_syntax syn n_rows
       (rs[p := (rs ! p)\<lparr>rendered_content := expand_tabs (content (rs ! p)),
                          rendered_size := int (length (expand_tabs (content (rs ! p))))\<rparr>]) p)"

text \<open>
  \<^verbatim>\<open>EditorRow.__init__\<close>: the new object is not in \<^verbatim>\<open>E.rows\<close> yet when its
  \<^verbatim>\<open>update_rendered\<close> runs, so \<^verbatim>\<open>E.rows[self.index - 1]\<close> and
  \<^verbatim>\<open>E.rows[self.index + 1]\<close> are rows of the list before the insertion. The result is the
  new row and the list, whose rows the nested call may have changed.
\<close>

definition EditorRow ::
  "editor_syntax option \<Rightarrow> int \<Rightarrow> editor_row list \<Rightarrow> int \<Rightarrow> string
     \<Rightarrow> (editor_row \<times> editor_row list) result" where
  "EditorRow syn n_rows rs idx txt =
     (let self = \<lparr>index = idx, content = txt, content_size = int (length txt),
                  rendered_content = expand_tabs txt,
                  rendered_size = int (length (expand_tabs txt)),
                  highlight = replicate (length (expand_tabs txt)) HL_NORMAL,
                  open_comment = False\<rparr>
      in if syn = None then Ok (self, rs)
         else (case prev_open_comment rs idx of
                 Inl e \<Rightarrow> Raise e
               | Inr prev_open \<Rightarrow>
                   (let r = get_syntax_highlighting (rendered_content self) syn prev_open;
                        new_open_comment = snd r;
                        self1 = self\<lparr>highlight := fst r\<rparr>
                    in if open_comment self1 \<noteq> new_open_comment \<and> idx + 1 < n_rows
                       then (case py_index rs (idx + 1) of
                               None \<Rightarrow> Raise list_index
                             | Some q \<Rightarrow>
                                 rbind (uncaught (update_syntax syn n_rows rs q))
                                   (\<lambda>rs'. Ok (self1\<lparr>open_comment := new_open_comment\<rparr>, rs')))
                       else Ok (self1\<lparr>open_comment := new_open_comment\<rparr>, rs))))"

text \<open>\<^verbatim>\<open>EditorRow.insert_char\<close>, \<^verbatim>\<open>append_string\<close> and \<^verbatim>\<open>delete_char\<close> at position \<open>p\<close>.\<close>

definition row_insert_char ::
  "editor_syntax option \<Rightarrow> int \<Rightarrow> editor_row list \<Rightarrow> nat \<Rightarrow> int \<Rightarrow> char
     \<Rightarrow> editor_row list result" where
  "row_insert_char syn n_rows rs p position ch =
     (let self = rs ! p;
          pos = (if position > content_size self then content_size self else position)
      in update_rendered syn n_rows
           (rs[p := self\<lparr>content := slice_to (content self) pos @ [ch] @ slice_from (content self) pos,
                         content_size := content_size self + 1\<rparr>]) p)"

definition append_string ::
  "editor_syntax option \<Rightarrow> int \<Rightarrow> editor_row list \<Rightarrow> nat \<Rightarrow> string \<Rightarrow> editor_row list result"
where
  "append_string syn n_rows rs p string =
     update_rendered syn n_rows
       (rs[p := (rs ! p)\<lparr>content := content (rs ! p) @ string,
                          content_size := content_size (rs ! p) + int (length string)\<rparr>]) p"

definition row_delete_char ::
  "editor_syntax option \<Rightarrow> int \<Rightarrow> editor_row list \<Rightarrow> nat \<Rightarrow> int \<Rightarrow> editor_row list result"
where
  "row_delete_char syn n_rows rs p position =
     (let self = rs ! p
      in if position \<ge> content_size self then Ok rs
         else update_rendered syn n_rows
                (rs[p := self\<lparr>content := slice_to (content self) position
                                        @ slice_from (content self) (position + 1),
                              content_size := content_size self - 1\<rparr>]) p)"

subsection \<open>Column mapping\<close>

text \<open>
  \<^verbatim>\<open>get_content_col\<close>: the loop reads \<^verbatim>\<open>row.content[content_col]\<close> below
  \<^verbatim>\<open>row.content_size\<close>, a field of its own, and raises past the end of the string.
\<close>

function get_content_col_loop :: "editor_row \<Rightarrow> int \<Rightarrow> int \<Rightarrow> int \<Rightarrow> error + int" where
  "get_content_col_loop row rendered_col content_col rendered =
     (if content_col < content_size row \<and> rendered < rendered_col
      then (case str_get (content row) content_col of
              Inl e \<Rightarrow> Inl e
            | Inr c \<Rightarrow>
                if c = TAB
                then (if rendered + (8 - rendered mod 8) > rendered_col then Inr content_col
                      else get_content_col_loop row rendered_col (content_col + 1)
                             (rendered + (8 - rendered mod 8)))
                else get_content_col_loop row rendered_col (content_col + 1) (rendered + 1))
      else Inr content_col)"
  by pat_completeness auto
termination
  by (relation "measure (\<lambda>(row, rendered_col, content_col, rendered).
        nat (content_size row - content_col))") auto

declare get_content_col_loop.simps [simp del]

definition get_content_col :: "editor_row \<Rightarrow> int \<Rightarrow> error + int" where
  "get_content_col row rendered_col = get_content_col_loop row rendered_col 0 0"

definition get_rendered_col :: "editor_row \<Rightarrow> int \<Rightarrow> int" where
  "get_rendered_col row content_col =
     foldl (\<lambda>rendered c. if c = TAB then rendered + (8 - rendered mod 8) else rendered + 1) 0
       (take (nat (min content_col (int (length (content row))))) (content row))"

subsection \<open>Editor state\<close>

text \<open>
  An undo or redo entry is the tuple \<^verbatim>\<open>(rows_copy, cursor_x, cursor_y, col_offset,
  row_offset)\<close>. The stacks are Python lists used from their end: \<^verbatim>\<open>append\<close> adds the
  last element, \<^verbatim>\<open>pop()\<close> takes it, \<^verbatim>\<open>pop(0)\<close> drops the first.
\<close>

type_synonym snapshot = "string list \<times> int \<times> int \<times> int \<times> int"

text \<open>
  \<^verbatim>\<open>EditorState\<close>. \<^verbatim>\<open>mark_x\<close> and \<^verbatim>\<open>mark_y\<close> are assigned together at every
  place of the source (both by \<^verbatim>\<open>set_mark\<close>, both \<^verbatim>\<open>None\<close> elsewhere): they are one
  optional pair \<open>(mark_x, mark_y)\<close>. \<^verbatim>\<open>modified\<close> holds 0 or 1 and is only tested for
  truth. \<^verbatim>\<open>status_message_time\<close>, a clock reading, is left out.
\<close>

record editor_state =
  cursor_x :: int
  cursor_y :: int
  row_offset :: int
  col_offset :: int
  screen_rows :: int
  screen_cols :: int
  total_rows :: int
  rows :: "editor_row list"
  modified :: bool
  file_name :: "string option"
  status_message :: string
  current_syntax :: "editor_syntax option"
  undo_stack :: "snapshot list"
  redo_stack :: "snapshot list"
  mark :: "(int \<times> int) option"
  clipboard :: string

definition set_status_message :: "string \<Rightarrow> editor_state \<Rightarrow> editor_state" where
  "set_status_message message E = E\<lparr>status_message := message\<rparr>"

text \<open>\<^verbatim>\<open>for i in is: E.rows[i].index += d\<close>\<close>

fun renumber :: "int \<Rightarrow> int list \<Rightarrow> editor_row list \<Rightarrow> error + editor_row list" where
  "renumber d [] rs = Inr rs"
| "renumber d (i # is) rs =
     (case py_index rs i of
        None \<Rightarrow> Inl list_index
      | Some j \<Rightarrow> renumber d is (rs[j := (rs ! j)\<lparr>index := index (rs ! j) + d\<rparr>]))"

definition insert_editor_row :: "int \<Rightarrow> string \<Rightarrow> editor_state \<Rightarrow> editor_state result" where
  "insert_editor_row position txt E =
     (let pos = (if position > total_rows E then total_rows E else position)
      in rbind (EditorRow (current_syntax E) (total_rows E) (rows E) pos txt)
           (\<lambda>(new_row, rs).
              rbind (Some (renumber 1 [pos + 1 .. total_rows E] (py_insert rs pos new_row)))
                (\<lambda>rs'. Ok (E\<lparr>rows := rs', total_rows := total_rows E + 1, modified := True\<rparr>))))"

definition delete_editor_row :: "int \<Rightarrow> editor_state \<Rightarrow> editor_state result" where
  "delete_editor_row position E =
     (if position \<ge> total_rows E then Ok E
      else rbind (Some (py_del (rows E) position))
             (\<lambda>rs. rbind (Some (renumber (- 1) [position .. total_rows E - 2] rs))
                (\<lambda>rs'. Ok (E\<lparr>rows := rs', total_rows := total_rows E - 1, modified := True\<rparr>))))"

definition rows_to_string :: "editor_state \<Rightarrow> string" where
  "rows_to_string E = join NL (map content (rows E)) @ [NL]"

subsection \<open>Undo and redo\<close>

definition current_state :: "editor_state \<Rightarrow> snapshot" where
  "current_state E = (map content (rows E), cursor_x E, cursor_y E, col_offset E, row_offset E)"

definition save_undo_state :: "editor_state \<Rightarrow> editor_state" where
  "save_undo_state E =
     (let stack = undo_stack E @ [current_state E]
      in E\<lparr>undo_stack := (if length stack > 50 then tl stack else stack), redo_stack := []\<rparr>)"

text \<open>\<^verbatim>\<open>for content in rows_copy: insert_editor_row(E.total_rows, content)\<close>\<close>

fun insert_rows_at_end :: "string list \<Rightarrow> editor_state \<Rightarrow> editor_state result" where
  "insert_rows_at_end [] E = Ok E"
| "insert_rows_at_end (c # cs) E =
     rbind (insert_editor_row (total_rows E) c E) (insert_rows_at_end cs)"

text \<open>The part \<^verbatim>\<open>undo\<close> and \<^verbatim>\<open>redo\<close> share: rebuild the rows, set cursor and offsets.\<close>

definition restore :: "snapshot \<Rightarrow> editor_state \<Rightarrow> editor_state result" where
  "restore snap E =
     (case snap of (rows_copy, cx, cy, co, ro) \<Rightarrow>
        rbind (insert_rows_at_end rows_copy (E\<lparr>rows := [], total_rows := 0\<rparr>))
          (\<lambda>E'. Ok (E'\<lparr>cursor_x := cx, cursor_y := cy, col_offset := co, row_offset := ro,
                        modified := True\<rparr>)))"

definition undo :: "editor_state \<Rightarrow> editor_state result" where
  "undo E =
     (if undo_stack E = [] then Ok (set_status_message ''Nothing to undo'' E)
      else rbind (restore (last (undo_stack E))
                   (E\<lparr>redo_stack := redo_stack E @ [current_state E],
                      undo_stack := butlast (undo_stack E)\<rparr>))
             (\<lambda>E'. Ok (set_status_message ''Undo performed'' E')))"

definition redo :: "editor_state \<Rightarrow> editor_state result" where
  "redo E =
     (if redo_stack E = [] then Ok (set_status_message ''Nothing to redo'' E)
      else rbind (restore (last (redo_stack E))
                   (E\<lparr>undo_stack := undo_stack E @ [current_state E],
                      redo_stack := butlast (redo_stack E)\<rparr>))
             (\<lambda>E'. Ok (set_status_message ''Redo performed'' E')))"

subsection \<open>Character editing\<close>

text \<open>
  \<^verbatim>\<open>while E.total_rows <= file_row: insert_editor_row(E.total_rows, '')\<close>: every
  insertion that returns adds one to \<^verbatim>\<open>E.total_rows\<close>, so the loop runs
  \<open>file_row + 1 - total_rows\<close> times, here \<open>n\<close>.
\<close>

fun append_empty_rows :: "nat \<Rightarrow> editor_state \<Rightarrow> editor_state result" where
  "append_empty_rows 0 E = Ok E"
| "append_empty_rows (Suc n) E =
     rbind (insert_editor_row (total_rows E) [] E) (append_empty_rows n)"

definition insert_char :: "char \<Rightarrow> editor_state \<Rightarrow> editor_state result" where
  "insert_char ch E0 =
     (let E = save_undo_state E0;
          file_row = (if row_offset E + cursor_y E > total_rows E then total_rows E
                      else row_offset E + cursor_y E)
      in rbind (append_empty_rows (nat (file_row + 1 - total_rows E)) E)
           (\<lambda>E1. case py_index (rows E1) file_row of
                    None \<Rightarrow> Raise list_index
                  | Some p \<Rightarrow>
                      rbind (Some (get_content_col (rows E1 ! p) (col_offset E1 + cursor_x E1)))
                        (\<lambda>file_col.
                           rbind (row_insert_char (current_syntax E1) (total_rows E1) (rows E1)
                                    p file_col ch)
                             (\<lambda>rs.
                                let E2 = E1\<lparr>rows := rs, cursor_x := cursor_x E1 + 1\<rparr>;
                                    E3 = (if cursor_x E2 = screen_cols E2
                                          then E2\<lparr>cursor_x := cursor_x E2 - 1,
                                                  col_offset := col_offset E2 + 1\<rparr>
                                          else E2)
                                in Ok (E3\<lparr>modified := True, mark := None\<rparr>)))))"

text \<open>
  In \<^verbatim>\<open>insert_newline\<close> the variable \<^verbatim>\<open>row\<close> holds the object found at
  \<^verbatim>\<open>E.rows[file_row]\<close> before the new row is inserted; \<open>moved\<close> is where that object is
  in the list afterwards.
\<close>

definition moved :: "editor_state \<Rightarrow> int \<Rightarrow> nat \<Rightarrow> nat" where
  "moved E position p =
     (if py_bound (rows E) (if position > total_rows E then total_rows E else position) \<le> p
      then p + 1 else p)"

definition insert_newline :: "editor_state \<Rightarrow> editor_state result" where
  "insert_newline E0 =
     (let E = save_undo_state E0;
          file_row = row_offset E + cursor_y E
      in rbind
           (if total_rows E \<le> file_row then insert_editor_row file_row [] E
            else (case py_index (rows E) file_row of
                    None \<Rightarrow> Raise list_index
                  | Some p \<Rightarrow>
                      rbind (Some (get_content_col (rows E ! p) (col_offset E + cursor_x E)))
                        (\<lambda>fc.
                           let row = rows E ! p;
                               file_col = (if fc > content_size row then content_size row else fc)
                           in if file_col = 0 then insert_editor_row file_row [] E
                              else rbind (insert_editor_row (file_row + 1)
                                            (slice_from (content row) file_col) E)
                                     (\<lambda>E1.
                                        let p' = moved E (file_row + 1) p;
                                            rs = (rows E1)[p' := (rows E1 ! p')
                                                    \<lparr>content := slice_to (content (rows E1 ! p'))
                                                                  file_col\<rparr>]
                                        in rbind (update_rendered (current_syntax E1)
                                                    (total_rows E1) rs p')
                                             (\<lambda>rs'. Ok (E1\<lparr>rows := rs'\<rparr>))))))
           (\<lambda>E2.
              let E3 = E2\<lparr>cursor_x := 0, col_offset := 0\<rparr>;
                  E4 = (if cursor_y E3 = screen_rows E3 - 1
                        then E3\<lparr>row_offset := row_offset E3 + 1\<rparr>
                        else E3\<lparr>cursor_y := cursor_y E3 + 1\<rparr>)
              in Ok (E4\<lparr>mark := None\<rparr>)))"

text \<open>
  \<^verbatim>\<open>delete_char\<close>. Its two early \<^verbatim>\<open>return\<close>s come after \<^verbatim>\<open>save_undo_state\<close> and
  before the flag and the mark are touched. \<^verbatim>\<open>prev_row\<close> is read after
  \<^verbatim>\<open>delete_editor_row\<close>, which changes \<^verbatim>\<open>index\<close> fields only.
\<close>

definition delete_char :: "editor_state \<Rightarrow> editor_state result" where
  "delete_char E0 =
     (let E = save_undo_state E0;
          file_row = row_offset E + cursor_y E;
          rendered_pos = col_offset E + cursor_x E
      in if file_row \<ge> total_rows E then Ok E
         else (case py_index (rows E) file_row of
                 None \<Rightarrow> Raise list_index
               | Some p \<Rightarrow>
                   if rendered_pos = 0
                   then (if file_row = 0 then Ok E
                         else (case py_index (rows E) (file_row - 1) of
                                 None \<Rightarrow> Raise list_index
                               | Some pp \<Rightarrow>
                                   rbind (append_string (current_syntax E) (total_rows E) (rows E)
                                            pp (content (rows E ! p)))
                                     (\<lambda>rs.
                                        rbind (delete_editor_row file_row (E\<lparr>rows := rs\<rparr>))
                                          (\<lambda>E1.
                                             let prev_row_len_before = content_size (rows E ! pp);
                                                 E2 = (if cursor_y E1 = 0
                                                       then (if row_offset E1 > 0
                                                             then E1\<lparr>row_offset := row_offset E1 - 1\<rparr>
                                                             else E1)
                                                       else E1\<lparr>cursor_y := cursor_y E1 - 1\<rparr>);
                                                 E3 = E2\<lparr>cursor_x :=
                                                          get_rendered_col (rs ! pp) prev_row_len_before\<rparr>;
                                                 E4 = (if cursor_x E3 \<ge> screen_cols E3
                                                       then E3\<lparr>col_offset :=
                                                                  cursor_x E3 - screen_cols E3 + 1,
                                                               cursor_x := screen_cols E3 - 1\<rparr>
                                                       else E3\<lparr>col_offset := 0,
                                                               cursor_x := (if cursor_x E3 < 0 then 0
                                                                            else cursor_x E3)\<rparr>)
                                             in Ok (E4\<lparr>modified := True, mark := None\<rparr>)))))
                   else rbind (Some (get_content_col (rows E ! p) (rendered_pos - 1)))
                          (\<lambda>position.
                             rbind (row_delete_char (current_syntax E) (total_rows E) (rows E)
                                      p position)
                               (\<lambda>rs.
                                  let E1 = E\<lparr>rows := rs\<rparr>;
                                      E2 = (if cursor_x E1 > 0 then E1\<lparr>cursor_x := cursor_x E1 - 1\<rparr>
                                            else if col_offset E1 > 0
                                            then E1\<lparr>col_offset := col_offset E1 - 1\<rparr>
                                            else E1)
                                  in Ok (E2\<lparr>modified := True, mark := None\<rparr>)))))"

subsection \<open>Mark, copy, cut and paste\<close>

definition set_mark :: "editor_state \<Rightarrow> editor_state" where
  "set_mark E =
     set_status_message ''Mark set''
       (E\<lparr>mark := Some (col_offset E + cursor_x E, row_offset E + cursor_y E)\<rparr>)"

text \<open>
  \<^verbatim>\<open>start_y, end_y = sorted([E.mark_y, E.row_offset + E.cursor_y])\<close> and the line after
  it, for a mark \<open>(mark_x, mark_y)\<close>: the result is \<open>(start_y, end_y, start_x, end_x)\<close>.
\<close>

definition selection :: "editor_state \<Rightarrow> int \<times> int \<Rightarrow> int \<times> int \<times> int \<times> int" where
  "selection E m =
     (let start_y = min (snd m) (row_offset E + cursor_y E);
          end_y = max (snd m) (row_offset E + cursor_y E)
      in if start_y = snd m then (start_y, end_y, fst m, col_offset E + cursor_x E)
         else (start_y, end_y, col_offset E + cursor_x E, fst m))"

definition sbind :: "error + 'a \<Rightarrow> ('a \<Rightarrow> error + 'b) \<Rightarrow> error + 'b" where
  "sbind m f = (case m of Inl e \<Rightarrow> Inl e | Inr x \<Rightarrow> f x)"

text \<open>The loop of \<^verbatim>\<open>copy_selection\<close> over \<^verbatim>\<open>range(start_y, end_y + 1)\<close>.\<close>

fun clipboard_lines ::
  "editor_state \<Rightarrow> int \<times> int \<times> int \<times> int \<Rightarrow> int list \<Rightarrow> error + string list" where
  "clipboard_lines E sel [] = Inr []"
| "clipboard_lines E sel (y # ys) =
     (case sel of (start_y, end_y, start_x, end_x) \<Rightarrow>
        if y \<ge> total_rows E then clipboard_lines E sel ys
        else sbind (py_get (rows E) y)
               (\<lambda>row. sbind (get_content_col row (if y = start_y then start_x else 0))
                  (\<lambda>content_start.
                     sbind (get_content_col row (if y = end_y then end_x else rendered_size row))
                       (\<lambda>content_end.
                          sbind (clipboard_lines E sel ys)
                            (\<lambda>ls. Inr (slice (content row) content_start content_end # ls))))))"

definition copy_selection :: "editor_state \<Rightarrow> editor_state result" where
  "copy_selection E =
     (case mark E of
        None \<Rightarrow> Ok (set_status_message ''No selection'' E)
      | Some m \<Rightarrow>
          (case selection E m of (start_y, end_y, start_x, end_x) \<Rightarrow>
             rbind (Some (clipboard_lines E (start_y, end_y, start_x, end_x) [start_y .. end_y]))
               (\<lambda>ls. Ok (set_status_message ''Copied to clipboard''
                            (E\<lparr>clipboard := join NL ls\<rparr>)))))"

text \<open>\<^verbatim>\<open>for y in ys: if y < E.total_rows: delete_editor_row(y)\<close>\<close>

fun delete_rows :: "int list \<Rightarrow> editor_state \<Rightarrow> editor_state result" where
  "delete_rows [] E = Ok E"
| "delete_rows (y # ys) E =
     rbind (if y < total_rows E then delete_editor_row y E else Ok E) (delete_rows ys)"

text \<open>
  The lines under \<^verbatim>\<open># Set new cursor position\<close>, the same in \<^verbatim>\<open>cut_selection\<close> and
  \<^verbatim>\<open>paste_clipboard\<close>.
\<close>

definition set_new_cursor_position :: "int \<Rightarrow> int \<Rightarrow> editor_state \<Rightarrow> editor_state" where
  "set_new_cursor_position new_cursor_y_file new_cursor_x_render E =
     (let E1 = (if new_cursor_y_file < row_offset E then E\<lparr>row_offset := new_cursor_y_file\<rparr>
                else E);
          E2 = (if new_cursor_y_file \<ge> row_offset E1 + screen_rows E1
                then E1\<lparr>row_offset := new_cursor_y_file - screen_rows E1 + 1\<rparr> else E1);
          E3 = E2\<lparr>cursor_y := new_cursor_y_file - row_offset E2\<rparr>;
          E4 = (if new_cursor_x_render < col_offset E3 then E3\<lparr>col_offset := new_cursor_x_render\<rparr>
                else E3);
          E5 = (if new_cursor_x_render \<ge> col_offset E4 + screen_cols E4
                then E4\<lparr>col_offset := new_cursor_x_render - screen_cols E4 + 1\<rparr> else E4)
      in E5\<lparr>cursor_x := new_cursor_x_render - col_offset E5\<rparr>)"

text \<open>
  \<^verbatim>\<open>cut_selection\<close> tests the clipboard, not the mark, after \<^verbatim>\<open>copy_selection\<close>;
  with no mark, \<^verbatim>\<open>sorted([None, n])\<close> raises \<^verbatim>\<open>TypeError\<close>.
\<close>

definition cut_rows :: "editor_state \<Rightarrow> int \<times> int \<times> int \<times> int \<Rightarrow> editor_state result" where
  \<comment> \<open>from \<^verbatim>\<open>first_row = E.rows[start_y]\<close> to the loop deleting the rows in between\<close>
  "cut_rows E sel =
     (case sel of (start_y, end_y, start_x_render, end_x_render) \<Rightarrow>
        rbind (Some (py_get (rows E) start_y)) (\<lambda>first_row.
        rbind (Some (py_get (rows E) end_y)) (\<lambda>last_row.
        rbind (Some (get_content_col first_row start_x_render)) (\<lambda>start_x_content.
        rbind (Some (get_content_col last_row end_x_render)) (\<lambda>end_x_content.
        rbind (update_rendered (current_syntax E) (total_rows E)
                 ((rows E)[the (py_index (rows E) start_y) := first_row
                    \<lparr>content := slice_to (content first_row) start_x_content
                                  @ slice_from (content last_row) end_x_content\<rparr>])
                 (the (py_index (rows E) start_y))) (\<lambda>rs.
        delete_rows (rev [start_y + 1 .. end_y]) (E\<lparr>rows := rs\<rparr>)))))))"

definition cut_marked :: "editor_state \<Rightarrow> editor_state result" where
  \<comment> \<open>the body of \<^verbatim>\<open>if E.clipboard:\<close> after \<^verbatim>\<open>save_undo_state()\<close>\<close>
  "cut_marked E =
     (case mark E of
        None \<Rightarrow> Raise TypeError
      | Some m \<Rightarrow>
          rbind (cut_rows E (selection E m)) (\<lambda>E1.
            Ok (set_status_message ''Cut to clipboard''
                  ((set_new_cursor_position (fst (selection E m)) (fst (snd (snd (selection E m)))) E1)
                   \<lparr>mark := None, modified := True\<rparr>))))"

definition cut_selection :: "editor_state \<Rightarrow> editor_state result" where
  "cut_selection E0 =
     rbind (copy_selection E0) (\<lambda>Ec.
       if clipboard Ec = [] then Ok Ec else cut_marked (save_undo_state Ec))"

text \<open>
  \<^verbatim>\<open>for i, line in enumerate(lines[1:], 1): file_row += 1; insert_editor_row(file_row, line)\<close>,
  returning the last \<^verbatim>\<open>file_row\<close> too.
\<close>

fun paste_rows :: "int \<Rightarrow> string list \<Rightarrow> editor_state \<Rightarrow> (int \<times> editor_state) result" where
  "paste_rows file_row [] E = Ok (file_row, E)"
| "paste_rows file_row (l # ls) E =
     rbind (insert_editor_row (file_row + 1) l E) (paste_rows (file_row + 1) ls)"

text \<open>\<^verbatim>\<open>for i in is: if i < E.total_rows: E.rows[i].update_rendered()\<close>\<close>

fun rerender :: "int list \<Rightarrow> editor_state \<Rightarrow> editor_state result" where
  "rerender [] E = Ok E"
| "rerender (i # is) E =
     rbind (if i < total_rows E
            then (case py_index (rows E) i of
                    None \<Rightarrow> Raise list_index
                  | Some q \<Rightarrow>
                      rbind (update_rendered (current_syntax E) (total_rows E) (rows E) q)
                        (\<lambda>rs. Ok (E\<lparr>rows := rs\<rparr>)))
            else Ok E)
       (rerender is)"

definition paste_lines :: "string list \<Rightarrow> int \<Rightarrow> editor_state \<Rightarrow> editor_state result" where
  \<comment> \<open>\<^verbatim>\<open>paste_clipboard\<close> from \<^verbatim>\<open>row = E.rows[file_row]\<close> on, without the status message\<close>
  "paste_lines lines file_row0 E1 =
     rbind (Some (py_get (rows E1) file_row0)) (\<lambda>row.
     rbind (Some (get_content_col row (col_offset E1 + cursor_x E1))) (\<lambda>file_col.
     rbind (paste_rows file_row0 (tl lines)
              (E1\<lparr>rows := (rows E1)[the (py_index (rows E1) file_row0) := row
                       \<lparr>content := slice_to (content row) file_col @ hd lines\<rparr>]\<rparr>)) (\<lambda>(file_row, E3).
     rbind (Some (py_get (rows E3) file_row)) (\<lambda>last_row.
     rbind (update_rendered (current_syntax E3) (total_rows E3)
              ((rows E3)[the (py_index (rows E3) file_row) := last_row
                 \<lparr>content := content last_row @ slice_from (content row) file_col\<rparr>])
              (the (py_index (rows E3) file_row))) (\<lambda>rs.
     rbind (rerender [file_row0 .. file_row] (E3\<lparr>rows := rs\<rparr>)) (\<lambda>E4.
     rbind (Some (py_get (rows E4) (file_row0 + int (length lines) - 1))) (\<lambda>new_row.
     Ok ((set_new_cursor_position (file_row0 + int (length lines) - 1)
            (get_rendered_col new_row
               (int (length (last lines)) + (if length lines = 1 then file_col else 0))) E4)
         \<lparr>modified := True\<rparr>))))))))"

definition paste_clipboard :: "editor_state \<Rightarrow> editor_state result" where
  "paste_clipboard E0 =
     (if clipboard E0 = [] then Ok (set_status_message ''Clipboard empty'' E0)
      else rbind (if row_offset E0 + cursor_y E0 \<ge> total_rows E0
                  then insert_editor_row (total_rows E0) [] (save_undo_state E0)
                  else Ok (save_undo_state E0)) (\<lambda>E1.
           rbind (paste_lines (split NL (clipboard E0)) (row_offset E0 + cursor_y E0) E1) (\<lambda>E5.
           Ok (set_status_message ''Pasted from clipboard'' E5))))"

subsection \<open>Opening and saving\<close>

text \<open>
  What the file system answers to \<^verbatim>\<open>open(file_name, 'r')\<close> and the iteration over the
  file: all its lines (each as Python yields it, with its line end), \<^verbatim>\<open>FileNotFoundError\<close>,
  or another exception with its message, after the lines read before it.
\<close>

datatype read_outcome = Lines "string list" | FileNotFound | ReadError string "string list"

definition str_error :: "error \<Rightarrow> string" where
  \<comment> \<open>\<^verbatim>\<open>str(e)\<close>\<close>
  "str_error e = (case e of IndexError m \<Rightarrow> m | TypeError \<Rightarrow> [])"

text \<open>
  \<^verbatim>\<open>open_file_terminal(file_name)\<close>. \<open>name_answer\<close> and \<open>discard_answer\<close> are what
  \<^verbatim>\<open>_prompt_user_cli\<close> returns to the two prompts when they are shown (\<open>None\<close> on ESC),
  \<open>fs\<close> is the file system. The rows are inserted into the emptied document, where
  \<^verbatim>\<open>insert_editor_row\<close> does not raise (\<open>insert_rows_at_end_Ok\<close> below).
\<close>

definition open_file_terminal ::
  "string option \<Rightarrow> string option \<Rightarrow> string option \<Rightarrow> (string \<Rightarrow> read_outcome)
     \<Rightarrow> editor_state \<Rightarrow> editor_state result" where
  "open_file_terminal file_name_arg name_answer discard_answer fs E =
     (case (if file_name_arg = None then name_answer else file_name_arg) of
        None \<Rightarrow> Ok (set_status_message ''Open canceled'' E)
      | Some name \<Rightarrow>
          if file_name_arg = None \<and> name = [] then Ok (set_status_message ''Open canceled'' E)
          else if modified E \<and> discard_answer \<noteq> Some ''y'' \<and> discard_answer \<noteq> Some ''Y''
          then Ok (set_status_message ''Open canceled'' E)
          else (let E1 = E\<lparr>file_name := Some name,
                            current_syntax := select_syntax_highlight (Some name),
                            rows := [], total_rows := 0, modified := False,
                            cursor_x := 0, cursor_y := 0, row_offset := 0, col_offset := 0\<rparr>
                in case fs name of
                     Lines ls \<Rightarrow>
                       rbind (insert_rows_at_end (map (rstrip [CR, NL]) ls) E1) (\<lambda>E2.
                         Ok (set_status_message (''Opened '' @ name) (E2\<lparr>modified := False\<rparr>)))
                   | FileNotFound \<Rightarrow>
                       Ok (set_status_message (''Opened '' @ name) (E1\<lparr>modified := False\<rparr>))
                   | ReadError msg ls \<Rightarrow>
                       rbind (insert_rows_at_end (map (rstrip [CR, NL]) ls) E1) (\<lambda>E2.
                         Ok (set_status_message (''Error opening file: '' @ msg) E2))))"

function str_nat :: "nat \<Rightarrow> string" where
  \<comment> \<open>the decimal digits of \<^verbatim>\<open>len(content)\<close> in the f-string\<close>
  "str_nat n = (if n < 10 then [char_of (48 + n)] else str_nat (n div 10) @ [char_of (48 + n mod 10)])"
  by pat_completeness auto
termination
  by (relation "measure id") auto

declare str_nat.simps [simp del]

text \<open>\<^verbatim>\<open>for row in E.rows: row.update_syntax()\<close>, inside the \<^verbatim>\<open>try\<close> of the save.\<close>

fun update_syntax_all ::
  "nat list \<Rightarrow> editor_syntax option \<Rightarrow> int \<Rightarrow> editor_row list
     \<Rightarrow> ((error \<times> editor_row list) + editor_row list) option" where
  "update_syntax_all [] syn n_rows rs = Some (Inr rs)"
| "update_syntax_all (p # ps) syn n_rows rs =
     Option.bind (update_syntax syn n_rows rs p)
       (\<lambda>res. case res of Inl e \<Rightarrow> Some (Inl e) | Inr rs' \<Rightarrow> update_syntax_all ps syn n_rows rs')"

text \<open>
  The \<^verbatim>\<open>try\<close> block of \<^verbatim>\<open>save_file_terminal\<close>. \<open>write_error\<close> is the message of the
  exception \<^verbatim>\<open>open(E.file_name, 'w')\<close> or \<^verbatim>\<open>f.write\<close> raises, \<open>None\<close> when the write
  succeeds. The first component of the result is the file name and the string handed to
  \<^verbatim>\<open>f.write\<close>, when the write succeeds.
\<close>

definition rehighlighted ::
  "editor_state \<Rightarrow> (error \<times> editor_row list) + editor_row list \<Rightarrow> editor_state" where
  \<comment> \<open>the state when the loop over the rows has returned, or raised into \<^verbatim>\<open>except Exception\<close>\<close>
  "rehighlighted E res =
     (case res of
        Inr rs \<Rightarrow> E\<lparr>rows := rs\<rparr>
      | Inl (e, rs) \<Rightarrow> set_status_message (''Error saving file: '' @ str_error e) (E\<lparr>rows := rs\<rparr>))"

definition write_file ::
  "string option \<Rightarrow> editor_state \<Rightarrow> ((string \<times> string) option \<times> editor_state) option" where
  "write_file write_error E =
     (case write_error of
        Some msg \<Rightarrow> Some (None, set_status_message (''Error saving file: '' @ msg) E)
      | None \<Rightarrow>
          map_option
            (\<lambda>res. (Some (the (file_name E), rstrip [NL] (rows_to_string E)),
                     rehighlighted
                       (set_status_message
                          (str_nat (length (rstrip [NL] (rows_to_string E))) @ '' bytes saved to ''
                           @ the (file_name E))
                          (E\<lparr>modified := False\<rparr>)) res))
            (update_syntax_all [0..<length (rows E)] (current_syntax E) (total_rows E) (rows E)))"

text \<open>
  \<^verbatim>\<open>save_file_terminal(save_as)\<close>; \<open>answer\<close> is what the \<^verbatim>\<open>Save as:\<close> prompt returns
  when it is shown.
\<close>

definition save_file_terminal ::
  "bool \<Rightarrow> string option \<Rightarrow> string option \<Rightarrow> editor_state
     \<Rightarrow> ((string \<times> string) option \<times> editor_state) option" where
  "save_file_terminal save_as answer write_error E =
     (if save_as \<or> file_name E = None \<or> file_name E = Some []
      then (if answer = None \<or> answer = Some []
            then Some (None, set_status_message ''Save canceled'' E)
            else write_file write_error
                   (E\<lparr>file_name := answer, current_syntax := select_syntax_highlight answer\<rparr>))
      else write_file write_error E)"

subsection \<open>Cursor movement\<close>

datatype arrow = ARROW_LEFT | ARROW_RIGHT | ARROW_UP | ARROW_DOWN

text \<open>\<^verbatim>\<open>E.rows[file_row] if file_row < E.total_rows else None\<close>\<close>

definition row_at :: "editor_state \<Rightarrow> int \<Rightarrow> error + editor_row option" where
  "row_at E file_row =
     (if file_row < total_rows E then map_sum id Some (py_get (rows E) file_row) else Inr None)"

text \<open>The last lines of \<^verbatim>\<open>move_cursor\<close>, which snap the cursor to the end of its line.\<close>

definition snap_cursor :: "editor_state \<Rightarrow> editor_state result" where
  "snap_cursor E =
     rbind (Some (row_at E (row_offset E + cursor_y E))) (\<lambda>row.
       let row_len = (case row of None \<Rightarrow> 0 | Some r \<Rightarrow> rendered_size r)
       in if col_offset E + cursor_x E > row_len
          then (if row_len - col_offset E < 0 then Ok (E\<lparr>col_offset := row_len, cursor_x := 0\<rparr>)
                else Ok (E\<lparr>cursor_x := row_len - col_offset E\<rparr>))
          else Ok E)"

definition move_cursor :: "arrow \<Rightarrow> editor_state \<Rightarrow> editor_state result" where
  "move_cursor key E =
     rbind (Some (row_at E (row_offset E + cursor_y E))) (\<lambda>row.
     rbind
       (case key of
          ARROW_LEFT \<Rightarrow>
            if cursor_x E = 0
            then (if col_offset E \<noteq> 0 then Ok (E\<lparr>col_offset := col_offset E - 1\<rparr>)
                  else if row_offset E + cursor_y E > 0
                  then rbind (Some (py_get (rows E) (row_offset E + cursor_y E - 1))) (\<lambda>prev.
                         if rendered_size prev > screen_cols E - 1
                         then Ok (E\<lparr>cursor_y := cursor_y E - 1,
                                    col_offset := rendered_size prev - screen_cols E + 1,
                                    cursor_x := screen_cols E - 1\<rparr>)
                         else Ok (E\<lparr>cursor_y := cursor_y E - 1, cursor_x := rendered_size prev\<rparr>))
                  else Ok E)
            else Ok (E\<lparr>cursor_x := cursor_x E - 1\<rparr>)
        | ARROW_RIGHT \<Rightarrow>
            (case row of
               None \<Rightarrow> Ok E
             | Some r \<Rightarrow>
                 if col_offset E + cursor_x E < rendered_size r
                 then (if cursor_x E = screen_cols E - 1
                       then Ok (E\<lparr>col_offset := col_offset E + 1\<rparr>)
                       else Ok (E\<lparr>cursor_x := cursor_x E + 1\<rparr>))
                 else if col_offset E + cursor_x E = rendered_size r
                         \<and> row_offset E + cursor_y E < total_rows E - 1
                 then Ok (E\<lparr>cursor_x := 0, col_offset := 0, cursor_y := cursor_y E + 1\<rparr>)
                 else Ok E)
        | ARROW_UP \<Rightarrow>
            if cursor_y E = 0
            then (if row_offset E \<noteq> 0 then Ok (E\<lparr>row_offset := row_offset E - 1\<rparr>) else Ok E)
            else Ok (E\<lparr>cursor_y := cursor_y E - 1\<rparr>)
        | ARROW_DOWN \<Rightarrow>
            if row_offset E + cursor_y E < total_rows E - 1
            then (if cursor_y E = screen_rows E - 1
                  then Ok (E\<lparr>row_offset := row_offset E + 1\<rparr>)
                  else Ok (E\<lparr>cursor_y := cursor_y E + 1\<rparr>))
            else Ok E)
       snap_cursor)"

text \<open>
  Page Up and Page Down: \<^verbatim>\<open>times = E.screen_rows; while times: move_cursor(direction);
  times -= 1\<close>. A negative \<^verbatim>\<open>times\<close> never reaches 0.
\<close>

fun repeat_move :: "nat \<Rightarrow> arrow \<Rightarrow> editor_state \<Rightarrow> editor_state result" where
  "repeat_move 0 key E = Ok E"
| "repeat_move (Suc n) key E = rbind (move_cursor key E) (repeat_move n key)"

definition page_move :: "arrow \<Rightarrow> editor_state \<Rightarrow> editor_state result" where
  "page_move key E = (if screen_rows E < 0 then None else repeat_move (nat (screen_rows E)) key E)"

text \<open>
  \<^verbatim>\<open>EditorState.update_screen_size\<close> and \<^verbatim>\<open>handle_resize\<close>; \<open>term_size\<close> is the terminal's
  \<open>(columns, lines)\<close>, \<open>None\<close> when \<^verbatim>\<open>os.get_terminal_size\<close> raises \<^verbatim>\<open>OSError\<close>.
\<close>

definition update_screen_size :: "(int \<times> int) option \<Rightarrow> editor_state \<Rightarrow> editor_state" where
  "update_screen_size term_size E =
     (case term_size of
        Some (columns, lines) \<Rightarrow> E\<lparr>screen_cols := columns, screen_rows := lines - 2\<rparr>
      | None \<Rightarrow> E\<lparr>screen_cols := 80, screen_rows := 24\<rparr>)"

definition handle_resize :: "(int \<times> int) option \<Rightarrow> editor_state \<Rightarrow> editor_state" where
  "handle_resize term_size E =
     (let E1 = update_screen_size term_size E;
          E2 = (if cursor_y E1 > screen_rows E1 - 1 then E1\<lparr>cursor_y := screen_rows E1 - 1\<rparr> else E1)
      in if cursor_x E2 > screen_cols E2 - 1 then E2\<lparr>cursor_x := screen_cols E2 - 1\<rparr> else E2)"

text \<open>\<^verbatim>\<open>EditorState.__init__\<close>\<close>

definition EditorState :: "(int \<times> int) option \<Rightarrow> editor_state" where
  "EditorState term_size =
     update_screen_size term_size
       \<lparr>cursor_x = 0, cursor_y = 0, row_offset = 0, col_offset = 0, screen_rows = 0,
        screen_cols = 0, total_rows = 0, rows = [], modified = False, file_name = None,
        status_message = [], current_syntax = None, undo_stack = [], redo_stack = [],
        mark = None, clipboard = []\<rparr>"

subsection \<open>The session loop\<close>

text \<open>
  One turn of \<^verbatim>\<open>terminal_process_keypress\<close> after the key is read, and the resize
  signal: the command, with what the terminal and the file system answer inside it.
  \<^verbatim>\<open>refresh_screen\<close> assigns no field of the state and is left out, as is Ctrl-Q,
  which sets the status message or ends the process.
\<close>

datatype command =
  Enter
  | Save bool "string option" "string option"
  | Open "string option" "string option" "string \<Rightarrow> read_outcome"
  | Undo | Redo | Set_mark | Copy | Cut | Paste
  | Backspace
  | Arrow arrow
  | Page arrow
  | Key char
  | Resize "(int \<times> int) option"

definition process_keypress :: "command \<Rightarrow> editor_state \<Rightarrow> editor_state result" where
  "process_keypress c E =
     (case c of
        Enter \<Rightarrow> insert_newline E
      | Save save_as answer write_error \<Rightarrow>
          map_option (\<lambda>r. Inr (snd r)) (save_file_terminal save_as answer write_error E)
      | Open name_answer discard_answer fs \<Rightarrow>
          open_file_terminal None name_answer discard_answer fs E
      | Undo \<Rightarrow> undo E
      | Redo \<Rightarrow> redo E
      | Set_mark \<Rightarrow> Ok (set_mark E)
      | Copy \<Rightarrow> copy_selection E
      | Cut \<Rightarrow> cut_selection E
      | Paste \<Rightarrow> paste_clipboard E
      | Backspace \<Rightarrow> delete_char E
      | Arrow key \<Rightarrow> move_cursor key E
      | Page key \<Rightarrow> page_move key E
      | Key ch \<Rightarrow> insert_char ch E
      | Resize term_size \<Rightarrow> Ok (handle_resize term_size E))"

fun run :: "command list \<Rightarrow> editor_state \<Rightarrow> editor_state result" where
  "run [] E = Ok E"
| "run (c # cs) E = rbind (process_keypress c E) (run cs)"

section \<open>Properties of the model\<close>

subsection \<open>Column mapping\<close>

definition tab_step :: "int \<Rightarrow> char \<Rightarrow> int" where
  "tab_step rendered c = (if c = TAB then rendered + (8 - rendered mod 8) else rendered + 1)"

lemma get_rendered_col_alt:
  "get_rendered_col row c = foldl tab_step 0 (take (nat (min c (int (length (content row))))) (content row))"
  by (simp add: get_rendered_col_def tab_step_def[abs_def])

lemma tab_step_gt: "r < tab_step r c"
proof -
  have "r mod 8 < 8" by simp
  then show ?thesis by (simp add: tab_step_def)
qed

lemma rendered_col_nat:
  assumes "k \<le> length (content row)"
  shows "get_rendered_col row (int k) = foldl tab_step 0 (take k (content row))"
proof -
  have "nat (min (int k) (int (length (content row)))) = k"
    using assms by simp
  then show ?thesis by (simp only: get_rendered_col_alt)
qed

lemma rendered_col_Suc:
  assumes "k < length (content row)"
  shows "get_rendered_col row (int (Suc k)) = tab_step (get_rendered_col row (int k)) (content row ! k)"
proof -
  have "get_rendered_col row (int (Suc k)) = foldl tab_step 0 (take (Suc k) (content row))"
    using assms by (intro rendered_col_nat) simp
  moreover have "get_rendered_col row (int k) = foldl tab_step 0 (take k (content row))"
    using assms by (intro rendered_col_nat) simp
  ultimately show ?thesis
    using assms by (simp add: take_Suc_conv_app_nth)
qed

lemma rendered_col_mono:
  assumes "k \<le> c" "c \<le> length (content row)"
  shows "get_rendered_col row (int k) \<le> get_rendered_col row (int c)"
  using assms
proof (induction c)
  case 0 then show ?case by simp
next
  case (Suc c)
  show ?case
  proof (cases "k = Suc c")
    case True then show ?thesis by simp
  next
    case False
    with Suc have "get_rendered_col row (int k) \<le> get_rendered_col row (int c)" by simp
    also have "\<dots> < get_rendered_col row (int (Suc c))"
      using Suc.prems rendered_col_Suc[of c row] tab_step_gt by simp
    finally show ?thesis by simp
  qed
qed

lemma get_content_col_loop_inverse:
  assumes "k \<le> c" "c \<le> length (content row)" "int c \<le> content_size row"
  shows "get_content_col_loop row (get_rendered_col row (int c)) (int k) (get_rendered_col row (int k)) = Inr (int c)"
  using assms
proof (induction "c - k" arbitrary: k)
  case 0
  then have "k = c" by simp
  then show ?case by (subst get_content_col_loop.simps) simp
next
  case (Suc d)
  then have lt: "k < c" and kl: "k < length (content row)" by auto
  have step: "get_rendered_col row (int (Suc k)) = tab_step (get_rendered_col row (int k)) (content row ! k)"
    using kl by (rule rendered_col_Suc)
  have le: "get_rendered_col row (int (Suc k)) \<le> get_rendered_col row (int c)"
    using lt Suc.prems by (intro rendered_col_mono) auto
  have less: "get_rendered_col row (int k) < get_rendered_col row (int c)"
    using le step tab_step_gt[of "get_rendered_col row (int k)" "content row ! k"] by simp
  have get: "str_get (content row) (int k) = Inr (content row ! k)"
    using kl by (simp add: str_get_def py_index_def)
  have IH: "get_content_col_loop row (get_rendered_col row (int c)) (int (Suc k)) (get_rendered_col row (int (Suc k))) = Inr (int c)"
    using Suc.hyps(1)[of "Suc k"] Suc.hyps(2) Suc.prems lt by simp
  have cs: "int k < content_size row" using lt Suc.prems by simp
  show ?case
    apply (subst get_content_col_loop.simps)
    using IH le less get cs step
    by (auto simp: tab_step_def add.commute split: if_splits)
qed

lemma get_content_col_inverse:
  assumes "0 \<le> c" "c \<le> int (length (content row))" "c \<le> content_size row"
  shows "get_content_col row (get_rendered_col row c) = Inr c"
proof -
  have "get_content_col_loop row (get_rendered_col row (int (nat c))) (int 0) (get_rendered_col row (int 0)) = Inr (int (nat c))"
    using assms by (intro get_content_col_loop_inverse) auto
  moreover have "get_rendered_col row 0 = 0" by (simp add: get_rendered_col_def)
  ultimately show ?thesis using assms by (simp add: get_content_col_def)
qed

subsection \<open>Rows appended to a document\<close>

text \<open>
  \<^verbatim>\<open>undo\<close>, \<^verbatim>\<open>redo\<close> and \<^verbatim>\<open>open_file_terminal\<close> empty the document and append
  rows to it. There \<^verbatim>\<open>E.total_rows\<close> is the length of \<^verbatim>\<open>E.rows\<close> and every row's
  \<^verbatim>\<open>rendered_size\<close> is the length of its \<^verbatim>\<open>rendered_content\<close>, so that no index is out of
  range and no nested \<^verbatim>\<open>update_syntax\<close> is called.
\<close>

definition rendered_ok :: "editor_row \<Rightarrow> bool" where
  "rendered_ok r = (rendered_size r = int (length (rendered_content r)))"

definition appendable :: "editor_state \<Rightarrow> bool" where
  "appendable E = (total_rows E = int (length (rows E)) \<and> (\<forall>r \<in> set (rows E). rendered_ok r))"

lemma has_open_comment_returns:
  assumes "rendered_ok r"
  shows "\<exists>b. has_open_comment r = Inr b"
proof (cases "rendered_size r < 2")
  case True
  then show ?thesis by (auto simp: has_open_comment_def)
next
  case False
  with assms have len: "2 \<le> length (rendered_content r)" by (simp add: rendered_ok_def)
  then have "\<exists>c. str_get (rendered_content r) (- 2) = Inr c" "\<exists>c. str_get (rendered_content r) (- 1) = Inr c"
    by (auto simp: str_get_def py_index_def Let_def)
  then show ?thesis by (auto simp: has_open_comment_def)
qed

lemma prev_open_comment_returns:
  assumes "idx \<le> int (length rs)" "\<forall>r \<in> set rs. rendered_ok r"
  shows "\<exists>b. prev_open_comment rs idx = Inr b"
proof (cases "idx > 0")
  case False
  then show ?thesis by (auto simp: prev_open_comment_def)
next
  case True
  with assms(1) have i: "py_index rs (idx - 1) = Some (nat (idx - 1))" and n: "nat (idx - 1) < length rs"
    by (auto simp: py_index_def Let_def)
  from n assms(2) have "rendered_ok (rs ! nat (idx - 1))" by simp
  then obtain b where "has_open_comment (rs ! nat (idx - 1)) = Inr b"
    using has_open_comment_returns by blast
  with True i show ?thesis by (simp add: prev_open_comment_def py_get_def)
qed

lemma EditorRow_at_end:
  assumes "\<forall>r \<in> set rs. rendered_ok r"
  shows "\<exists>r. EditorRow syn (int (length rs)) rs (int (length rs)) txt = Ok (r, rs)
           \<and> content r = txt \<and> rendered_ok r"
proof -
  obtain b where b: "prev_open_comment rs (int (length rs)) = Inr b"
    using prev_open_comment_returns[OF _ assms, of "int (length rs)"] by auto
  show ?thesis
    by (cases syn) (simp_all add: EditorRow_def Let_def b rendered_ok_def)
qed

lemma py_insert_end: "py_insert xs (int (length xs)) x = xs @ [x]"
  by (simp add: py_insert_def py_bound_def)

lemma insert_editor_row_at_end:
  assumes "appendable E"
  shows "\<exists>r. insert_editor_row (total_rows E) txt E
             = Ok (E\<lparr>rows := rows E @ [r], total_rows := total_rows E + 1, modified := True\<rparr>)
           \<and> content r = txt \<and> rendered_ok r"
proof -
  from assms have t: "total_rows E = int (length (rows E))" and w: "\<forall>r \<in> set (rows E). rendered_ok r"
    by (auto simp: appendable_def)
  obtain r where r: "EditorRow (current_syntax E) (int (length (rows E))) (rows E) (int (length (rows E))) txt = Ok (r, rows E)"
    "content r = txt" "rendered_ok r"
    using EditorRow_at_end[OF w] by blast
  show ?thesis
    using r by (auto simp: insert_editor_row_def t py_insert_end)
qed

lemma insert_rows_at_end_Ok:
  assumes "appendable E"
  shows "\<exists>rs. insert_rows_at_end cs E
             = Ok (E\<lparr>rows := rows E @ rs, total_rows := total_rows E + int (length cs),
                     modified := (cs \<noteq> [] \<or> modified E)\<rparr>)
           \<and> map content rs = cs \<and> (\<forall>r \<in> set rs. rendered_ok r)"
  using assms
proof (induction cs arbitrary: E)
  case Nil
  then show ?case by simp
next
  case (Cons c cs)
  obtain r where r: "insert_editor_row (total_rows E) c E
             = Ok (E\<lparr>rows := rows E @ [r], total_rows := total_rows E + 1, modified := True\<rparr>)"
           "content r = c" "rendered_ok r"
    using insert_editor_row_at_end[OF Cons.prems] by blast
  let ?E1 = "E\<lparr>rows := rows E @ [r], total_rows := total_rows E + 1, modified := True\<rparr>"
  have "appendable ?E1" using Cons.prems r(3) by (auto simp: appendable_def)
  from Cons.IH[OF this] obtain rs where rs:
    "insert_rows_at_end cs ?E1
       = Ok (?E1\<lparr>rows := rows ?E1 @ rs, total_rows := total_rows ?E1 + int (length cs),
                   modified := (cs \<noteq> [] \<or> modified ?E1)\<rparr>)"
    "map content rs = cs" "\<forall>r \<in> set rs. rendered_ok r"
    by blast
  show ?case
    apply (rule exI[of _ "r # rs"])
    using r rs by (simp add: add.assoc)
qed

lemma restore_Ok:
  "\<exists>rs. restore (cs, cx, cy, co, ro) E
          = Ok (E\<lparr>rows := rs, total_rows := int (length cs), cursor_x := cx, cursor_y := cy,
                  col_offset := co, row_offset := ro, modified := True\<rparr>)
        \<and> map content rs = cs \<and> (\<forall>r \<in> set rs. rendered_ok r)"
proof -
  have "appendable (E\<lparr>rows := [], total_rows := 0\<rparr>)" by (simp add: appendable_def)
  from insert_rows_at_end_Ok[OF this, of cs] obtain rs where rs:
    "insert_rows_at_end cs (E\<lparr>rows := [], total_rows := 0\<rparr>)
       = Ok (E\<lparr>rows := rs, total_rows := int (length cs), modified := (cs \<noteq> [] \<or> modified E)\<rparr>)"
    "map content rs = cs" "\<forall>r \<in> set rs. rendered_ok r"
    by auto
  show ?thesis
    apply (rule exI[of _ rs])
    using rs by (simp add: restore_def)
qed

lemma undo_pop:
  assumes "undo_stack E \<noteq> []"
  shows "\<exists>E'. undo E = Ok E' \<and> current_state E' = last (undo_stack E) \<and> modified E'
           \<and> undo_stack E' = butlast (undo_stack E)
           \<and> redo_stack E' = redo_stack E @ [current_state E]
           \<and> status_message E' = ''Undo performed''
           \<and> appendable E'"
proof -
  obtain cs cx cy co ro where s: "last (undo_stack E) = (cs, cx, cy, co, ro)"
    by (metis prod_cases5)
  let ?E1 = "E\<lparr>redo_stack := redo_stack E @ [current_state E], undo_stack := butlast (undo_stack E)\<rparr>"
  obtain rs where rs: "restore (cs, cx, cy, co, ro) ?E1
          = Ok (?E1\<lparr>rows := rs, total_rows := int (length cs), cursor_x := cx, cursor_y := cy,
                  col_offset := co, row_offset := ro, modified := True\<rparr>)"
        "map content rs = cs" "\<forall>r \<in> set rs. rendered_ok r"
    using restore_Ok by blast
  have "length rs = length cs" using rs(2) by (metis length_map)
  then show ?thesis
    using assms s rs
    by (simp add: undo_def set_status_message_def current_state_def appendable_def)
qed

lemma redo_pop:
  assumes "redo_stack E \<noteq> []"
  shows "\<exists>E'. redo E = Ok E' \<and> current_state E' = last (redo_stack E) \<and> modified E'
           \<and> redo_stack E' = butlast (redo_stack E)
           \<and> undo_stack E' = undo_stack E @ [current_state E]
           \<and> status_message E' = ''Redo performed''
           \<and> appendable E'"
proof -
  obtain cs cx cy co ro where s: "last (redo_stack E) = (cs, cx, cy, co, ro)"
    by (metis prod_cases5)
  let ?E1 = "E\<lparr>undo_stack := undo_stack E @ [current_state E], redo_stack := butlast (redo_stack E)\<rparr>"
  obtain rs where rs: "restore (cs, cx, cy, co, ro) ?E1
          = Ok (?E1\<lparr>rows := rs, total_rows := int (length cs), cursor_x := cx, cursor_y := cy,
                  col_offset := co, row_offset := ro, modified := True\<rparr>)"
        "map content rs = cs" "\<forall>r \<in> set rs. rendered_ok r"
    using restore_Ok by blast
  have "length rs = length cs" using rs(2) by (metis length_map)
  then show ?thesis
    using assms s rs
    by (simp add: redo_def set_status_message_def current_state_def appendable_def)
qed

subsection \<open>What commands do to the undo and redo stacks\<close>

definition stacks :: "editor_state \<Rightarrow> snapshot list \<times> snapshot list" where
  "stacks E = (undo_stack E, redo_stack E)"

lemma rbindE:
  assumes "rbind m f = Ok y"
  obtains x where "m = Ok x" "f x = Ok y"
  using assms by (auto simp: rbind_Ok_iff)

lemma stacks_simps [simp]:
  "stacks (E\<lparr>rows := rs\<rparr>) = stacks E"
  "stacks (E\<lparr>total_rows := n\<rparr>) = stacks E"
  "stacks (E\<lparr>modified := b\<rparr>) = stacks E"
  "stacks (E\<lparr>cursor_x := i\<rparr>) = stacks E"
  "stacks (E\<lparr>cursor_y := i\<rparr>) = stacks E"
  "stacks (E\<lparr>row_offset := i\<rparr>) = stacks E"
  "stacks (E\<lparr>col_offset := i\<rparr>) = stacks E"
  "stacks (E\<lparr>screen_rows := i\<rparr>) = stacks E"
  "stacks (E\<lparr>screen_cols := i\<rparr>) = stacks E"
  "stacks (E\<lparr>mark := m\<rparr>) = stacks E"
  "stacks (E\<lparr>clipboard := s\<rparr>) = stacks E"
  "stacks (E\<lparr>file_name := fn\<rparr>) = stacks E"
  "stacks (E\<lparr>current_syntax := sy\<rparr>) = stacks E"
  "stacks (E\<lparr>status_message := s\<rparr>) = stacks E"
  "stacks (set_status_message s E) = stacks E"
  by (simp_all add: stacks_def set_status_message_def)

lemma stacks_insert_editor_row:
  "insert_editor_row position txt E = Ok E' \<Longrightarrow> stacks E' = stacks E"
  by (auto simp: insert_editor_row_def Let_def elim!: rbindE split: prod.splits)

lemma stacks_delete_editor_row:
  "delete_editor_row position E = Ok E' \<Longrightarrow> stacks E' = stacks E"
  by (auto simp: delete_editor_row_def elim!: rbindE split: if_splits)

lemma stacks_insert_rows_at_end:
  "insert_rows_at_end cs E = Ok E' \<Longrightarrow> stacks E' = stacks E"
  by (induction cs arbitrary: E) (auto elim!: rbindE dest: stacks_insert_editor_row)

lemma stacks_append_empty_rows:
  "append_empty_rows n E = Ok E' \<Longrightarrow> stacks E' = stacks E"
  by (induction n arbitrary: E) (auto elim!: rbindE dest: stacks_insert_editor_row)

lemma stacks_delete_rows:
  "delete_rows ys E = Ok E' \<Longrightarrow> stacks E' = stacks E"
  by (induction ys arbitrary: E) (auto elim!: rbindE dest: stacks_delete_editor_row split: if_splits)

lemma stacks_paste_rows:
  "paste_rows file_row ls E = Ok (file_row', E') \<Longrightarrow> stacks E' = stacks E"
  by (induction ls arbitrary: E file_row) (auto elim!: rbindE dest: stacks_insert_editor_row)

lemma stacks_rerender:
  "rerender is E = Ok E' \<Longrightarrow> stacks E' = stacks E"
  by (induction "is" arbitrary: E) (auto elim!: rbindE split: if_splits option.splits)

definition keeps :: "editor_state \<Rightarrow> editor_state result \<Rightarrow> bool" where
  "keeps E m = (\<forall>E'. m = Ok E' \<longrightarrow> stacks E' = stacks E)"

lemma keepsD: "keeps E m \<Longrightarrow> m = Ok E' \<Longrightarrow> stacks E' = stacks E"
  by (simp add: keeps_def)

lemma keeps_Ok: "stacks E' = stacks E \<Longrightarrow> keeps E (Ok E')"
  by (simp add: keeps_def)

lemma keeps_fail [simp]: "keeps E (Raise e)" "keeps E None"
  by (simp_all add: keeps_def)

lemma keeps_rbind: "(\<And>x. m = Ok x \<Longrightarrow> keeps E (f x)) \<Longrightarrow> keeps E (rbind m f)"
  by (auto simp: keeps_def rbind_Ok_iff)

lemma keeps_if: "(c \<Longrightarrow> keeps E a) \<Longrightarrow> (\<not> c \<Longrightarrow> keeps E b) \<Longrightarrow> keeps E (if c then a else b)"
  by simp

lemma keeps_option:
  "(x = None \<Longrightarrow> keeps E a) \<Longrightarrow> (\<And>y. x = Some y \<Longrightarrow> keeps E (b y))
     \<Longrightarrow> keeps E (case x of None \<Rightarrow> a | Some y \<Rightarrow> b y)"
  by (cases x) simp_all

lemma keeps_prod: "(\<And>a b. p = (a, b) \<Longrightarrow> keeps E (f a b)) \<Longrightarrow> keeps E (case p of (a, b) \<Rightarrow> f a b)"
  by (cases p) simp

lemma keeps_arrow:
  "keeps E a \<Longrightarrow> keeps E b \<Longrightarrow> keeps E c \<Longrightarrow> keeps E d
     \<Longrightarrow> keeps E (case k of ARROW_LEFT \<Rightarrow> a | ARROW_RIGHT \<Rightarrow> b | ARROW_UP \<Rightarrow> c | ARROW_DOWN \<Rightarrow> d)"
  by (cases k) simp_all

lemmas keeps_intros = keeps_rbind keeps_if keeps_option keeps_prod keeps_arrow

lemma stacks_set_new_cursor_position [simp]:
  "stacks (set_new_cursor_position y x E) = stacks E"
  by (simp add: set_new_cursor_position_def Let_def)

lemma keeps_cut_rows: "keeps E (cut_rows E sel)"
  unfolding cut_rows_def
  by (intro keeps_intros) (auto simp: keeps_def dest!: stacks_delete_rows)

lemma keeps_paste_lines: "keeps E (paste_lines ls file_row0 E)"
  unfolding paste_lines_def
  by (intro keeps_intros keeps_Ok) (auto dest!: stacks_paste_rows stacks_rerender)

lemma copy_selection_frame:
  "copy_selection E = Ok E' \<Longrightarrow>
     stacks E' = stacks E \<and> current_state E' = current_state E \<and> mark E' = mark E"
  by (auto simp: copy_selection_def set_status_message_def current_state_def stacks_def
           elim!: rbindE split: option.splits prod.splits)

lemma keeps_snap_cursor: "keeps E (snap_cursor E)"
  unfolding snap_cursor_def Let_def
  by (intro keeps_intros keeps_Ok) simp_all

lemma keeps_snap_cursor': "stacks E1 = stacks E \<Longrightarrow> keeps E (snap_cursor E1)"
  using keeps_snap_cursor[of E1] by (simp add: keeps_def)

lemma keeps_move_cursor: "keeps E (move_cursor key E)"
  unfolding move_cursor_def
  apply (rule keeps_rbind)
  apply (rule keeps_rbind)
  apply (rule keeps_snap_cursor')
  apply (auto elim!: rbindE split: arrow.splits if_splits option.splits)
  done

lemma stacks_repeat_move:
  "repeat_move n key E = Ok E' \<Longrightarrow> stacks E' = stacks E"
  by (induction n arbitrary: E) (auto elim!: rbindE dest: keepsD[OF keeps_move_cursor])

lemma stacks_page_move:
  "page_move key E = Ok E' \<Longrightarrow> stacks E' = stacks E"
  by (auto simp: page_move_def dest: stacks_repeat_move split: if_splits)

lemma stacks_rehighlighted [simp]: "stacks (rehighlighted E res) = stacks E"
  by (cases res) (auto simp: rehighlighted_def split: prod.splits)

lemma stacks_write_file:
  "write_file write_error E = Some (w, E') \<Longrightarrow> stacks E' = stacks E"
  by (cases write_error) (auto simp: write_file_def)

lemma stacks_save_file_terminal:
  "save_file_terminal save_as answer write_error E = Some (w, E') \<Longrightarrow> stacks E' = stacks E"
  by (auto simp: save_file_terminal_def dest: stacks_write_file split: if_splits)

lemma keeps_read_outcome:
  "(\<And>ls. x = Lines ls \<Longrightarrow> keeps E (a ls)) \<Longrightarrow> (x = FileNotFound \<Longrightarrow> keeps E b)
     \<Longrightarrow> (\<And>msg ls. x = ReadError msg ls \<Longrightarrow> keeps E (c msg ls))
     \<Longrightarrow> keeps E (case x of Lines ls \<Rightarrow> a ls | FileNotFound \<Rightarrow> b | ReadError msg ls \<Rightarrow> c msg ls)"
  by (cases x) simp_all

lemma keeps_open_file_terminal:
  "keeps E (open_file_terminal arg name_answer discard_answer fs E)"
  unfolding open_file_terminal_def Let_def
  by (intro keeps_intros keeps_read_outcome keeps_Ok) (auto dest!: stacks_insert_rows_at_end)

lemma stacks_handle_resize [simp]: "stacks (handle_resize sz E) = stacks E"
  by (auto simp: handle_resize_def update_screen_size_def Let_def split: option.splits)

lemma stacks_set_mark [simp]: "stacks (set_mark E) = stacks E"
  by (simp add: set_mark_def)

lemma stacks_save_undo_state:
  "stacks (save_undo_state E)
     = (if length (undo_stack E) \<ge> 50 then tl (undo_stack E @ [current_state E])
        else undo_stack E @ [current_state E], [])"
  by (auto simp: save_undo_state_def stacks_def Let_def)

lemma keeps_insert_char: "keeps (save_undo_state E) (insert_char ch E)"
  unfolding insert_char_def Let_def
  by (intro keeps_intros keeps_Ok)
     (auto dest!: stacks_append_empty_rows stacks_insert_editor_row)

lemma keeps_insert_newline: "keeps (save_undo_state E) (insert_newline E)"
  unfolding insert_newline_def Let_def
  by (intro keeps_intros keeps_Ok)
     (auto elim!: rbindE dest!: stacks_insert_editor_row split: option.splits if_splits)

lemma keeps_delete_char: "keeps (save_undo_state E) (delete_char E)"
  unfolding delete_char_def Let_def
  by (intro keeps_intros keeps_Ok)
     (auto dest!: stacks_delete_editor_row)

lemma keeps_paste_clipboard:
  "keeps (if clipboard E = [] then E else save_undo_state E) (paste_clipboard E)"
  unfolding paste_clipboard_def
  by (intro keeps_intros keeps_Ok)
     (auto dest!: stacks_insert_editor_row keepsD[OF keeps_paste_lines] split: if_splits)

lemma save_undo_state_cong:
  "current_state Ec = current_state E \<Longrightarrow> stacks Ec = stacks E
     \<Longrightarrow> stacks (save_undo_state Ec) = stacks (save_undo_state E)"
  by (simp add: stacks_save_undo_state) (simp add: stacks_def)

lemma keeps_cut_marked: "keeps E (cut_marked E)"
  unfolding cut_marked_def
  by (intro keeps_intros keeps_Ok) (auto dest!: keepsD[OF keeps_cut_rows])

lemma stacks_cut_selection:
  assumes "cut_selection E = Ok E'"
  shows "\<exists>Ec. copy_selection E = Ok Ec
           \<and> stacks E' = (if clipboard Ec = [] then stacks E else stacks (save_undo_state E))"
proof -
  from assms obtain Ec where c: "copy_selection E = Ok Ec"
    and r: "(if clipboard Ec = [] then Ok Ec else cut_marked (save_undo_state Ec)) = Ok E'"
    unfolding cut_selection_def by (rule rbindE)
  note f = copy_selection_frame[OF c]
  show ?thesis
  proof (cases "clipboard Ec = []")
    case True
    with r f c show ?thesis by simp
  next
    case False
    with r have "stacks E' = stacks (save_undo_state Ec)"
      using keeps_cut_marked[of "save_undo_state Ec"] by (simp add: keeps_def)
    moreover have "stacks (save_undo_state Ec) = stacks (save_undo_state E)"
      using f by (intro save_undo_state_cong) simp_all
    ultimately show ?thesis using c False by simp
  qed
qed

subsection \<open>Sequences of edits\<close>

text \<open>
  An edit is a command that calls \<^verbatim>\<open>save_undo_state\<close>: a typed character, Enter,
  Backspace, a paste with a clipboard to paste and a cut whose copy fills the clipboard.
  \<open>edits cs E\<close> says that every command of \<open>cs\<close> is an edit in the state where it runs
  and returns; \<open>before cs E\<close> lists the states in which they run, as snapshots.
\<close>

definition records :: "command \<Rightarrow> editor_state \<Rightarrow> bool" where
  "records c E =
     (case c of
        Key ch \<Rightarrow> True
      | Enter \<Rightarrow> True
      | Backspace \<Rightarrow> True
      | Paste \<Rightarrow> clipboard E \<noteq> []
      | Cut \<Rightarrow> (case copy_selection E of Some (Inr Ec) \<Rightarrow> clipboard Ec \<noteq> [] | _ \<Rightarrow> False)
      | _ \<Rightarrow> False)"

fun edits :: "command list \<Rightarrow> editor_state \<Rightarrow> bool" where
  "edits [] E = True"
| "edits (c # cs) E =
     (records c E \<and> (case process_keypress c E of Some (Inr E') \<Rightarrow> edits cs E' | _ \<Rightarrow> False))"

fun before :: "command list \<Rightarrow> editor_state \<Rightarrow> snapshot list" where
  "before [] E = []"
| "before (c # cs) E =
     current_state E # (case process_keypress c E of Some (Inr E') \<Rightarrow> before cs E' | _ \<Rightarrow> [])"

lemma undo_stack_save_undo_state:
  "undo_stack (save_undo_state E)
     = (if length (undo_stack E) \<ge> 50 then tl (undo_stack E @ [current_state E])
        else undo_stack E @ [current_state E])"
  by (auto simp: save_undo_state_def Let_def)

lemma redo_stack_save_undo_state: "redo_stack (save_undo_state E) = []"
  by (simp add: save_undo_state_def Let_def)

lemma edit_stacks:
  assumes "records c E" "process_keypress c E = Ok E'"
  shows "stacks E' = stacks (save_undo_state E)"
proof (cases c)
  case Enter
  with assms show ?thesis using keeps_insert_newline[of E] by (simp add: process_keypress_def keeps_def)
next
  case (Key ch)
  with assms show ?thesis using keeps_insert_char[of E ch] by (simp add: process_keypress_def keeps_def)
next
  case Backspace
  with assms show ?thesis using keeps_delete_char[of E] by (simp add: process_keypress_def keeps_def)
next
  case Paste
  with assms show ?thesis using keeps_paste_clipboard[of E]
    by (simp add: process_keypress_def keeps_def records_def)
next
  case Cut
  with assms have "cut_selection E = Ok E'" by (simp add: process_keypress_def)
  from stacks_cut_selection[OF this] assms(1) Cut show ?thesis
    by (auto simp: records_def)
qed (use assms in \<open>simp_all add: records_def\<close>)

definition bounded :: "editor_state \<Rightarrow> bool" where
  "bounded E = (length (undo_stack E) + length (redo_stack E) \<le> 50)"

lemma bounded_stacks: "stacks E' = stacks E \<Longrightarrow> bounded E \<Longrightarrow> bounded E'"
  by (simp add: stacks_def bounded_def)

lemma bounded_save_undo_state: "bounded E \<Longrightarrow> bounded (save_undo_state E)"
  by (auto simp: bounded_def save_undo_state_def Let_def)

lemma bounded_undo: assumes "bounded E" "undo E = Ok E'" shows "bounded E'"
proof (cases "undo_stack E = []")
  case True
  with assms show ?thesis by (auto simp: undo_def bounded_def set_status_message_def)
next
  case False
  from undo_pop[OF False] assms(2) have u: "undo_stack E' = butlast (undo_stack E)"
    and r: "redo_stack E' = redo_stack E @ [current_state E]" by auto
  from False have "length (butlast (undo_stack E)) + 1 = length (undo_stack E)"
    by (cases "undo_stack E" rule: rev_cases) auto
  with u r assms(1) show ?thesis by (simp add: bounded_def)
qed

lemma bounded_redo: assumes "bounded E" "redo E = Ok E'" shows "bounded E'"
proof (cases "redo_stack E = []")
  case True
  with assms show ?thesis by (auto simp: redo_def bounded_def set_status_message_def)
next
  case False
  from redo_pop[OF False] assms(2) have u: "redo_stack E' = butlast (redo_stack E)"
    and r: "undo_stack E' = undo_stack E @ [current_state E]" by auto
  from False have "length (butlast (redo_stack E)) + 1 = length (redo_stack E)"
    by (cases "redo_stack E" rule: rev_cases) auto
  with u r assms(1) show ?thesis by (simp add: bounded_def)
qed

lemma stacks_process_keypress:
  assumes "process_keypress c E = Ok E'"
  shows "stacks E' = stacks E \<or> stacks E' = stacks (save_undo_state E) \<or> c = Undo \<or> c = Redo"
proof (cases c)
  case Enter
  with assms show ?thesis using edit_stacks[of c E E'] by (simp add: records_def)
next
  case (Key ch)
  with assms show ?thesis using edit_stacks[of c E E'] by (simp add: records_def)
next
  case Backspace
  with assms show ?thesis using edit_stacks[of c E E'] by (simp add: records_def)
next
  case Paste
  with assms show ?thesis using keeps_paste_clipboard[of E]
    by (auto simp: process_keypress_def keeps_def split: if_splits)
next
  case Cut
  with assms have "cut_selection E = Ok E'" by (simp add: process_keypress_def)
  from stacks_cut_selection[OF this] show ?thesis by (auto split: if_splits)
next
  case (Save save_as answer write_error)
  with assms obtain w where "save_file_terminal save_as answer write_error E = Some (w, E')"
    by (auto simp: process_keypress_def)
  from stacks_save_file_terminal[OF this] show ?thesis by simp
next
  case (Open name_answer discard_answer fs)
  with assms show ?thesis using keeps_open_file_terminal[of E None name_answer discard_answer fs]
    by (simp add: process_keypress_def keeps_def)
next
  case Set_mark
  with assms show ?thesis by (auto simp: process_keypress_def)
next
  case Copy
  with assms show ?thesis using copy_selection_frame[of E E']
    by (simp add: process_keypress_def)
next
  case (Arrow key)
  with assms show ?thesis using keeps_move_cursor[of E key]
    by (simp add: process_keypress_def keeps_def)
next
  case (Page key)
  with assms show ?thesis using stacks_page_move[of key E E']
    by (simp add: process_keypress_def)
next
  case (Resize sz)
  with assms show ?thesis by (auto simp: process_keypress_def)
qed simp_all

lemma bounded_process_keypress:
  assumes "bounded E" "process_keypress c E = Ok E'"
  shows "bounded E'"
proof -
  from stacks_process_keypress[OF assms(2)]
  consider "stacks E' = stacks E" | "stacks E' = stacks (save_undo_state E)" | "c = Undo" | "c = Redo"
    by blast
  then show ?thesis
  proof cases
    case 1
    then show ?thesis using assms(1) by (rule bounded_stacks)
  next
    case 2
    then show ?thesis using bounded_save_undo_state[OF assms(1)] by (rule bounded_stacks)
  next
    case 3
    with assms show ?thesis by (auto simp: process_keypress_def intro: bounded_undo)
  next
    case 4
    with assms show ?thesis by (auto simp: process_keypress_def intro: bounded_redo)
  qed
qed

lemma bounded_run: "bounded E \<Longrightarrow> run cs E = Ok E' \<Longrightarrow> bounded E'"
  by (induction cs arbitrary: E) (auto elim!: rbindE dest: bounded_process_keypress)

lemma bounded_EditorState: "bounded (EditorState sz)"
  by (auto simp: bounded_def EditorState_def update_screen_size_def split: option.splits)

lemma run_append: "run (cs @ ds) E = rbind (run cs E) (run ds)"
  by (induction cs arbitrary: E) (auto simp: rbind_def split: option.splits sum.splits)

lemma edits_run: "edits cs E \<Longrightarrow> \<exists>E'. run cs E = Ok E'"
  by (induction cs arbitrary: E) (auto split: option.splits sum.splits)

lemma edits_snoc:
  "edits (cs @ [c]) E \<longleftrightarrow>
     edits cs E \<and> (\<exists>E1. run cs E = Ok E1 \<and> records c E1 \<and> (\<exists>E2. process_keypress c E1 = Ok E2))"
  by (induction cs arbitrary: E) (auto split: option.splits sum.splits)

lemma before_snoc:
  "edits cs E \<Longrightarrow> run cs E = Ok E1 \<Longrightarrow> before (cs @ [c]) E = before cs E @ [current_state E1]"
  by (induction cs arbitrary: E) (auto split: option.splits sum.splits)

lemma length_before: "edits cs E \<Longrightarrow> length (before cs E) = length cs"
  by (induction cs arbitrary: E) (auto split: option.splits sum.splits)

lemma stack_after_edits:
  assumes "edits cs E" "run cs E = Ok E'"
  shows "\<exists>k. k \<le> length (undo_stack E) + length cs - 50
           \<and> undo_stack E' = drop k (undo_stack E @ before cs E)
           \<and> (cs \<noteq> [] \<longrightarrow> redo_stack E' = [])"
  using assms
proof (induction cs arbitrary: E' rule: rev_induct)
  case Nil
  then show ?case by (auto intro: exI[of _ 0])
next
  case (snoc c cs)
  from snoc.prems(1) obtain E1 E2 where e: "edits cs E" and r1: "run cs E = Ok E1"
    and rc: "records c E1" and p: "process_keypress c E1 = Ok E2"
    by (auto simp: edits_snoc)
  from snoc.prems(2) r1 p have E': "E' = E2" by (simp add: run_append)
  from snoc.IH[OF e r1] obtain k where k: "k \<le> length (undo_stack E) + length cs - 50"
    and u1: "undo_stack E1 = drop k (undo_stack E @ before cs E)" by blast
  have lb: "length (before cs E) = length cs" using e by (rule length_before)
  have bs: "before (cs @ [c]) E = before cs E @ [current_state E1]"
    using e r1 by (rule before_snoc)
  have kl: "k \<le> length (undo_stack E @ before cs E)" using k lb by simp
  have app: "undo_stack E1 @ [current_state E1] = drop k (undo_stack E @ before (cs @ [c]) E)"
    using kl by (simp add: u1 bs)
  have st: "stacks E2 = stacks (save_undo_state E1)" using rc p by (rule edit_stacks)
  show ?case
  proof (cases "length (undo_stack E1) \<ge> 50")
    case True
    then have r2: "redo_stack E2 = []" and "undo_stack E2 = tl (undo_stack E1 @ [current_state E1])"
      using st by (simp_all add: stacks_def undo_stack_save_undo_state redo_stack_save_undo_state)
    moreover have "tl (drop k xs) = drop (Suc k) xs" for xs :: "snapshot list"
      by (simp add: drop_Suc tl_drop)
    ultimately have "undo_stack E2 = drop (Suc k) (undo_stack E @ before (cs @ [c]) E)"
      by (simp only: app)
    moreover have "Suc k \<le> length (undo_stack E) + length (cs @ [c]) - 50"
      using True u1 lb kl by simp
    ultimately show ?thesis using r2 E' by blast
  next
    case False
    then have "undo_stack E2 = undo_stack E1 @ [current_state E1]" and "redo_stack E2 = []"
      using st by (simp_all add: stacks_def undo_stack_save_undo_state redo_stack_save_undo_state)
    then have "undo_stack E2 = drop k (undo_stack E @ before (cs @ [c]) E)"
      by (simp add: app)
    moreover have "k \<le> length (undo_stack E) + length (cs @ [c]) - 50"
      using k by simp
    ultimately show ?thesis using \<open>redo_stack E2 = []\<close> E' by blast
  qed
qed

lemma length_stack_after_edits:
  assumes "edits cs E" "run cs E = Ok E'" "length (undo_stack E) \<le> 50"
  shows "length (undo_stack E') = min 50 (length (undo_stack E) + length cs)"
  using assms
proof (induction cs arbitrary: E' rule: rev_induct)
  case Nil
  then show ?case by simp
next
  case (snoc c cs)
  from snoc.prems(1) obtain E1 E2 where e: "edits cs E" and r1: "run cs E = Ok E1"
    and rc: "records c E1" and p: "process_keypress c E1 = Ok E2"
    by (auto simp: edits_snoc)
  from snoc.prems(2) r1 p have E': "E' = E2" by (simp add: run_append)
  have l1: "length (undo_stack E1) = min 50 (length (undo_stack E) + length cs)"
    using snoc.IH[OF e r1 snoc.prems(3)] .
  have st: "stacks E2 = stacks (save_undo_state E1)" using rc p by (rule edit_stacks)
  have "undo_stack E2 = undo_stack (save_undo_state E1)"
    using st by (simp add: stacks_def)
  then have "length (undo_stack E2) = (if length (undo_stack E1) \<ge> 50 then length (undo_stack E1) else length (undo_stack E1) + 1)"
    by (simp add: undo_stack_save_undo_state)
  with l1 E' show ?case by auto
qed

lemma undo_many:
  assumes "undo_stack E = pre @ ss"
  shows "\<exists>E'. run (replicate (length ss) Undo) E = Ok E' \<and> undo_stack E' = pre
           \<and> (ss \<noteq> [] \<longrightarrow> current_state E' = hd ss)"
  using assms
proof (induction ss arbitrary: E rule: rev_induct)
  case Nil
  then show ?case by simp
next
  case (snoc s ss)
  then have ne: "undo_stack E \<noteq> []" by simp
  from undo_pop[OF ne] obtain E1 where E1: "undo E = Ok E1" "current_state E1 = last (undo_stack E)"
    "undo_stack E1 = butlast (undo_stack E)" by blast
  have u1: "undo_stack E1 = pre @ ss" using E1(3) snoc.prems by (simp add: butlast_append)
  from snoc.IH[OF u1] obtain E' where E': "run (replicate (length ss) Undo) E1 = Ok E'"
    "undo_stack E' = pre" "ss \<noteq> [] \<longrightarrow> current_state E' = hd ss" by blast
  have "run (replicate (length (ss @ [s])) Undo) E = Ok E'"
    using E1(1) E'(1) by (simp add: process_keypress_def)
  moreover have "current_state E' = hd (ss @ [s])"
  proof (cases ss)
    case Nil
    with E'(1) have "E' = E1" by simp
    with E1(2) snoc.prems Nil show ?thesis by simp
  next
    case (Cons a as)
    with E'(3) show ?thesis by simp
  qed
  ultimately show ?case using E'(2) by blast
qed

lemma before_hd: "cs \<noteq> [] \<Longrightarrow> hd (before cs E) = current_state E"
  by (cases cs) simp_all

subsection \<open>Stripping trailing characters\<close>

lemma rstrip_snoc: "c \<in> set cs \<Longrightarrow> rstrip cs (s @ [c]) = rstrip cs s"
  by (simp add: rstrip_def)

lemma rstrip_last: "rstrip cs s = [] \<or> last (rstrip cs s) \<notin> set cs"
proof (cases "dropWhile (\<lambda>c. c \<in> set cs) (rev s)")
  case Nil
  then show ?thesis by (simp add: rstrip_def)
next
  case (Cons x xs)
  then have "x \<notin> set cs" using hd_dropWhile[of "\<lambda>c. c \<in> set cs" "rev s"] by auto
  with Cons show ?thesis by (simp add: rstrip_def)
qed

lemma rstrip_decompose: "\<exists>k. s = rstrip [c] s @ replicate k c"
proof -
  let ?P = "\<lambda>x. x \<in> set [c]"
  have "rev s = takeWhile ?P (rev s) @ dropWhile ?P (rev s)" by simp
  then have "s = rev (dropWhile ?P (rev s)) @ rev (takeWhile ?P (rev s))"
    by (metis rev_append rev_rev_ident)
  moreover have "\<forall>x \<in> set (takeWhile ?P (rev s)). x = c"
    using set_takeWhileD by fastforce
  then have "takeWhile ?P (rev s) = replicate (length (takeWhile ?P (rev s))) c"
    by (simp add: replicate_length_same)
  then have "rev (takeWhile ?P (rev s)) = replicate (length (takeWhile ?P (rev s))) c"
    by (metis rev_replicate)
  ultimately show ?thesis unfolding rstrip_def by metis
qed

lemma write_file_text:
  assumes "map_option fst (write_file write_error E) = Some (Some (name, written))"
  shows "written = rstrip [NL] (rows_to_string E)"
proof (cases write_error)
  case (Some msg)
  with assms show ?thesis by (simp add: write_file_def)
next
  case None
  with assms show ?thesis by (auto simp: write_file_def)
qed

section \<open>The claims of the specification\<close>

subsection \<open>Views of a state and concrete sessions\<close>

definition outcome :: "(editor_state \<Rightarrow> 'a) \<Rightarrow> editor_state result \<Rightarrow> 'a result" where
  \<comment> \<open>a field of the state a command returns\<close>
  "outcome f m = map_option (map_sum id f) m"

definition after :: "command list \<Rightarrow> editor_state" where
  \<comment> \<open>the state after the commands, run from a fresh editor with no terminal size\<close>
  "after cs = (case run cs (EditorState None) of Some (Inr E) \<Rightarrow> E | _ \<Rightarrow> EditorState None)"

definition document :: "editor_state \<Rightarrow> string list" where
  "document E = map content (rows E)"

definition content_sizes :: "editor_state \<Rightarrow> int list" where
  "content_sizes E = map content_size (rows E)"

definition rendered_sizes :: "editor_state \<Rightarrow> int list" where
  "rendered_sizes E = map rendered_size (rows E)"

definition highlights :: "editor_state \<Rightarrow> hl list list" where
  "highlights E = map highlight (rows E)"

definition open_comments :: "editor_state \<Rightarrow> bool list" where
  "open_comments E = map open_comment (rows E)"

definition rendered_cols :: "editor_state \<Rightarrow> int list" where
  \<comment> \<open>\<^verbatim>\<open>get_rendered_col(row, len(row.content))\<close> of every row\<close>
  "rendered_cols E = map (\<lambda>r. get_rendered_col r (int (length (content r)))) (rows E)"

definition one_letter :: "command list" where
  \<comment> \<open>type \<^verbatim>\<open>a\<close>\<close>
  "one_letter = [Key CHR ''a'']"

subsection \<open>C1: the rendered form and the rendered column\<close>

definition tab_file :: "string \<Rightarrow> read_outcome" where
  \<comment> \<open>a file of one line, \<^verbatim>\<open>a\tb\<close>\<close>
  "tab_file name = Lines [[CHR ''a'', TAB, CHR ''b'', NL]]"

definition opened_tab_file :: "editor_state result" where
  "opened_tab_file = open_file_terminal (Some ''t.txt'') None None tab_file (EditorState None)"

text \<open>
  C1 says that the stored rendered form of a row expands each tab to the next multiple
  of 8, so that its length is the rendered column \<^verbatim>\<open>get_rendered_col\<close> computes for the
  whole content. \<^verbatim>\<open>update_rendered\<close> replaces every tab by eight spaces wherever it
  stands: for the line \<^verbatim>\<open>a\tb\<close> the rendered form has 10 characters, and the rendered
  column of its end is 9.
\<close>

theorem rendered_length_differs_from_rendered_col:
  "outcome document opened_tab_file = Ok [[CHR ''a'', TAB, CHR ''b'']]
   \<and> outcome rendered_sizes opened_tab_file = Ok [10]
   \<and> outcome rendered_cols opened_tab_file = Ok [9]"
  by code_simp

subsection \<open>C2: what the save writes\<close>

text \<open>
  As C2 states it, the save writes the rows joined by newlines with one trailing newline.
  \<^verbatim>\<open>save_file_terminal\<close> writes \<^verbatim>\<open>rows_to_string().rstrip('\n')\<close>: for the document of
  the one row \<^verbatim>\<open>a\<close> it writes \<^verbatim>\<open>a\<close>, with no newline.
\<close>

theorem saved_text_counterexample:
  "document (after one_letter) = [''a'']
   \<and> join NL (map content (rows (after one_letter))) @ [NL] = [CHR ''a'', NL]
   \<and> map_option fst (save_file_terminal False (Some ''f.txt'') None (after one_letter))
       = Some (Some (''f.txt'', ''a''))"
  by code_simp

text \<open>
  C2, amended: for every document state, the string the terminal save writes is the
  rows' raw contents joined by a single newline character, with every newline at its end
  removed. It ends in no newline, and it differs from the joined rows by trailing
  newlines only (trailing empty rows are not written).
\<close>

theorem saved_text_stripped:
  assumes "map_option fst (save_file_terminal save_as answer write_error E)
             = Some (Some (name, written))"
  shows "written = rstrip [NL] (join NL (map content (rows E)))
         \<and> (written = [] \<or> last written \<noteq> NL)
         \<and> (\<exists>k. join NL (map content (rows E)) = written @ replicate k NL)"
proof -
  have "\<exists>E1. rows E1 = rows E \<and> map_option fst (write_file write_error E1) = Some (Some (name, written))"
  proof (cases "save_as \<or> file_name E = None \<or> file_name E = Some []")
    case True
    with assms have "map_option fst (write_file write_error
        (E\<lparr>file_name := answer, current_syntax := select_syntax_highlight answer\<rparr>))
        = Some (Some (name, written))"
      by (auto simp: save_file_terminal_def split: if_splits)
    then show ?thesis by (intro exI[of _ "E\<lparr>file_name := answer, current_syntax := select_syntax_highlight answer\<rparr>"]) simp
  next
    case False
    with assms show ?thesis by (auto simp: save_file_terminal_def)
  qed
  then obtain E1 where r: "rows E1 = rows E"
    and w: "map_option fst (write_file write_error E1) = Some (Some (name, written))" by blast
  have "written = rstrip [NL] (rows_to_string E1)" using w by (rule write_file_text)
  then have eq: "written = rstrip [NL] (join NL (map content (rows E)))"
    by (simp add: rows_to_string_def r rstrip_snoc)
  moreover have "written = [] \<or> last written \<noteq> NL"
    using rstrip_last[of "[NL]" "join NL (map content (rows E))"] eq by auto
  moreover have "\<exists>k. join NL (map content (rows E)) = written @ replicate k NL"
    using rstrip_decompose[of "join NL (map content (rows E))" NL] eq by simp
  ultimately show ?thesis by blast
qed

definition trailing_lines :: "command list" where
  \<comment> \<open>the rows \<^verbatim>\<open>a\<close>, \<^verbatim>\<open>b\<close> and two empty ones\<close>
  "trailing_lines = [Key CHR ''a'', Enter, Key CHR ''b'', Enter, Enter]"

theorem saved_text_stripped_witness:
  "map_option fst (save_file_terminal False (Some ''f.txt'') None (after trailing_lines))
     = Some (Some (''f.txt'', [CHR ''a'', NL, CHR ''b'']))
   \<and> document (after trailing_lines) = [''a'', ''b'', '''', '''']
   \<and> [CHR ''a'', NL, CHR ''b''] = rstrip [NL] (join NL (map content (rows (after trailing_lines))))
   \<and> (\<exists>k. join NL (map content (rows (after trailing_lines)))
             = [CHR ''a'', NL, CHR ''b''] @ replicate k NL)"
proof -
  have s: "map_option fst (save_file_terminal False (Some ''f.txt'') None (after trailing_lines))
     = Some (Some (''f.txt'', [CHR ''a'', NL, CHR ''b'']))" by code_simp
  have d: "document (after trailing_lines) = [''a'', ''b'', '''', '''']" by code_simp
  from saved_text_stripped[OF s] s d show ?thesis by blast
qed

subsection \<open>C3: cut without a mark\<close>

definition copy_then_type :: "command list" where
  \<comment> \<open>copy the letter \<^verbatim>\<open>a\<close>, then type \<^verbatim>\<open>b\<close>, which clears the mark\<close>
  "copy_then_type =
     [Key CHR ''a'', Arrow ARROW_LEFT, Set_mark, Arrow ARROW_RIGHT, Copy, Key CHR ''b'']"

text \<open>
  C3 says that cut with no mark set reports a status message, changes nothing and raises
  nothing, whatever the clipboard holds. After a copy and an edit the mark is \<^verbatim>\<open>None\<close>
  and the clipboard is not empty; \<^verbatim>\<open>cut_selection\<close> then goes past its test of the
  clipboard, saves an undo state and raises \<^verbatim>\<open>TypeError\<close> in \<^verbatim>\<open>sorted\<close>.
\<close>

theorem cut_without_mark_raises:
  "outcome mark (run copy_then_type (EditorState None)) = Ok None
   \<and> outcome clipboard (run copy_then_type (EditorState None)) = Ok ''a''
   \<and> run (copy_then_type @ [Cut]) (EditorState None) = Raise TypeError"
  by code_simp

subsection \<open>C4: an open that fails\<close>

definition denied :: "string \<Rightarrow> read_outcome" where
  \<comment> \<open>a file system where \<^verbatim>\<open>open\<close> raises \<^verbatim>\<open>PermissionError\<close>\<close>
  "denied name = ReadError ''Permission denied'' []"

definition failed_open :: "command list" where
  \<comment> \<open>type \<^verbatim>\<open>a\<close>, then open \<^verbatim>\<open>b.c\<close> and confirm that the changes are discarded\<close>
  "failed_open = [Key CHR ''a'', Open (Some ''b.c'') (Some ''y'') denied]"

text \<open>
  As C4 states it, an open that fails with an error other than file-not-found leaves the
  rows, the file name and the language as they were. \<^verbatim>\<open>open_file_terminal\<close> sets the
  file name and the language and empties the document before it opens the file: after
  the failure the row \<^verbatim>\<open>a\<close> is gone and the editor is on \<^verbatim>\<open>b.c\<close> with the C syntax.
\<close>

theorem failed_open_counterexample:
  "outcome document (run one_letter (EditorState None)) = Ok [''a'']
   \<and> outcome file_name (run one_letter (EditorState None)) = Ok None
   \<and> outcome current_syntax (run one_letter (EditorState None)) = Ok None
   \<and> outcome document (run failed_open (EditorState None)) = Ok []
   \<and> outcome file_name (run failed_open (EditorState None)) = Ok (Some ''b.c'')
   \<and> outcome current_syntax (run failed_open (EditorState None)) = Ok (Some (SYNTAX_DB ! 0))
   \<and> outcome status_message (run failed_open (EditorState None))
       = Ok ''Error opening file: Permission denied''"
  by code_simp

text \<open>
  C4, amended: when the open operation goes ahead (a file name is given or entered, and
  unsaved changes are confirmed as discarded) and fails with an error other than
  file-not-found, it returns with the requested file name, the language selected from
  that name, a document of the lines read before the failure (empty when the file could
  not be opened), cursor and offsets at 0, the modified flag set exactly when a line was
  read, and the status message reporting the error; the undo and redo stacks, the
  clipboard and the mark are unchanged.
\<close>

theorem failed_open_state:
  assumes "file_name_arg = Some name \<or> (file_name_arg = None \<and> name_answer = Some name \<and> name \<noteq> [])"
    and "\<not> modified E \<or> discard_answer = Some ''y'' \<or> discard_answer = Some ''Y''"
    and "fs name = ReadError msg ls"
  shows "\<exists>E'. open_file_terminal file_name_arg name_answer discard_answer fs E = Ok E'
           \<and> file_name E' = Some name
           \<and> current_syntax E' = select_syntax_highlight (Some name)
           \<and> map content (rows E') = map (rstrip [CR, NL]) ls
           \<and> total_rows E' = int (length ls)
           \<and> cursor_x E' = 0 \<and> cursor_y E' = 0 \<and> row_offset E' = 0 \<and> col_offset E' = 0
           \<and> modified E' = (ls \<noteq> [])
           \<and> status_message E' = ''Error opening file: '' @ msg
           \<and> undo_stack E' = undo_stack E \<and> redo_stack E' = redo_stack E
           \<and> clipboard E' = clipboard E \<and> mark E' = mark E"
proof -
  let ?E1 = "E\<lparr>file_name := Some name,
                current_syntax := select_syntax_highlight (Some name),
                rows := [], total_rows := 0, modified := False,
                cursor_x := 0, cursor_y := 0, row_offset := 0, col_offset := 0\<rparr>"
  have "appendable ?E1" by (simp add: appendable_def)
  from insert_rows_at_end_Ok[OF this, of "map (rstrip [CR, NL]) ls"] obtain rs where
    rs: "insert_rows_at_end (map (rstrip [CR, NL]) ls) ?E1
           = Ok (?E1\<lparr>rows := rows ?E1 @ rs,
                      total_rows := total_rows ?E1 + int (length (map (rstrip [CR, NL]) ls)),
                      modified := (map (rstrip [CR, NL]) ls \<noteq> [] \<or> modified ?E1)\<rparr>)"
    and c: "map content rs = map (rstrip [CR, NL]) ls" by blast
  have sel: "(if file_name_arg = None then name_answer else file_name_arg) = Some name"
    using assms(1) by auto
  have ne: "\<not> (file_name_arg = None \<and> name = [])" using assms(1) by auto
  have go: "\<not> (modified E \<and> discard_answer \<noteq> Some ''y'' \<and> discard_answer \<noteq> Some ''Y'')"
    using assms(2) by auto
  show ?thesis
    unfolding open_file_terminal_def Let_def
    by (simp only: sel option.case ne go if_False assms(3) read_outcome.case rs rbind_simps)
       (simp add: set_status_message_def c)
qed

theorem failed_open_state_witness:
  "denied ''b.c'' = ReadError ''Permission denied'' []
   \<and> modified (after one_letter) \<and> document (after one_letter) = [''a'']
   \<and> (\<exists>E'. open_file_terminal (Some ''b.c'') None (Some ''y'') denied (after one_letter) = Ok E'
          \<and> file_name E' = Some ''b.c'' \<and> map content (rows E') = []
          \<and> status_message E' = ''Error opening file: Permission denied''
          \<and> undo_stack E' = undo_stack (after one_letter))"
proof -
  have h1: "Some ''b.c'' = Some ''b.c'' \<or> (Some ''b.c'' = None \<and> None = Some ''b.c'' \<and> ''b.c'' \<noteq> [])"
    by simp
  have h2: "\<not> modified (after one_letter) \<or> Some ''y'' = Some ''y'' \<or> Some ''y'' = Some ''Y''"
    by simp
  have h3: "denied ''b.c'' = ReadError ''Permission denied'' []" by (simp add: denied_def)
  have m: "modified (after one_letter)" by code_simp
  have d: "document (after one_letter) = [''a'']" by code_simp
  from failed_open_state[where file_name_arg = "Some ''b.c''" and name = "''b.c''"
      and name_answer = None and discard_answer = "Some ''y''" and fs = denied
      and E = "after one_letter" and msg = "''Permission denied''" and ls = "[]", OF h1 h2 h3]
    h3 m d
  show ?thesis by auto
qed

subsection \<open>C5: content column, rendered column and back\<close>

definition copy_paste :: "command list" where
  \<comment> \<open>type \<^verbatim>\<open>abc\<close>, select it, copy it and paste it at its end\<close>
  "copy_paste =
     [Key CHR ''a'', Key CHR ''b'', Key CHR ''c'',
      Arrow ARROW_LEFT, Arrow ARROW_LEFT, Arrow ARROW_LEFT, Set_mark,
      Arrow ARROW_RIGHT, Arrow ARROW_RIGHT, Arrow ARROW_RIGHT, Copy, Paste]"

text \<open>
  C5 says that for every row and every content offset \<open>c\<close> from 0 to the length of the
  content, \<^verbatim>\<open>get_content_col(row, get_rendered_col(row, c))\<close> is \<open>c\<close>.
  \<^verbatim>\<open>get_content_col\<close> stops at \<^verbatim>\<open>row.content_size\<close>, which \<^verbatim>\<open>paste_clipboard\<close> leaves
  as it was: after the paste the row is \<^verbatim>\<open>abcabc\<close> with \<^verbatim>\<open>content_size\<close> 3, and offset 5
  comes back as 3. (\<open>get_content_col_inverse\<close> above is the law for the rows whose
  \<^verbatim>\<open>content_size\<close> is at least \<open>c\<close>.)
\<close>

theorem column_round_trip_fails_after_paste:
  "outcome document (run copy_paste (EditorState None)) = Ok [''abcabc'']
   \<and> outcome content_sizes (run copy_paste (EditorState None)) = Ok [3]
   \<and> get_rendered_col (rows (after copy_paste) ! 0) 5 = 5
   \<and> get_content_col (rows (after copy_paste) ! 0) (get_rendered_col (rows (after copy_paste) ! 0) 5)
       = Inr 3"
  by code_simp

subsection \<open>C6: undo and redo after a sequence of edits\<close>

definition fifty_one_edits :: "command list" where
  \<comment> \<open>type \<^verbatim>\<open>a\<close>, then 25 times type \<^verbatim>\<open>b\<close> and delete it\<close>
  "fifty_one_edits = Key CHR ''a'' # concat (replicate 25 [Key CHR ''b'', Backspace])"

text \<open>
  As C6 states it, for any sequence of edits, as many undos restore the state before the
  sequence. The undo stack keeps 50 entries (C8): after 51 edits from a fresh editor, 51
  undos end in the state after the first edit, the row \<^verbatim>\<open>a\<close> with the cursor behind it.
\<close>

theorem undo_limit_counterexample:
  "edits fifty_one_edits (EditorState None)
   \<and> length fifty_one_edits = 51
   \<and> current_state (EditorState None) = ([], 0, 0, 0, 0)
   \<and> outcome current_state (run (fifty_one_edits @ replicate 51 Undo) (EditorState None))
       = Ok ([''a''], 1, 0, 0, 0)"
  by code_simp

text \<open>
  C6, amended: for any sequence of at most 50 edits that all return, run from any state,
  undo invoked as many times as there were edits returns and restores the row contents,
  the cursor x/y and the column and row offsets to their values before the sequence; and
  after the sequence, an undo followed by a redo restores the row contents, cursor and
  offsets the state had after the edits.
\<close>

theorem undo_restores_edits:
  assumes "edits cs E" and "length cs \<le> 50"
  shows "\<exists>E'. run cs E = Ok E'
           \<and> (\<exists>E''. run (replicate (length cs) Undo) E' = Ok E'' \<and> current_state E'' = current_state E)
           \<and> (cs \<noteq> [] \<longrightarrow> (\<exists>U R. undo E' = Ok U \<and> redo U = Ok R \<and> current_state R = current_state E'))"
proof -
  from edits_run[OF assms(1)] obtain E' where r: "run cs E = Ok E'" by blast
  from stack_after_edits[OF assms(1) r] obtain k where k: "k \<le> length (undo_stack E) + length cs - 50"
    and u: "undo_stack E' = drop k (undo_stack E @ before cs E)"
    and rd: "cs \<noteq> [] \<longrightarrow> redo_stack E' = []" by blast
  have kl: "k \<le> length (undo_stack E)" using k assms(2) by simp
  then have u': "undo_stack E' = drop k (undo_stack E) @ before cs E" using u by simp
  have lb: "length (before cs E) = length cs" using assms(1) by (rule length_before)
  from undo_many[OF u'] lb obtain E'' where E'': "run (replicate (length cs) Undo) E' = Ok E''"
    "before cs E \<noteq> [] \<longrightarrow> current_state E'' = hd (before cs E)" by auto
  have "current_state E'' = current_state E"
  proof (cases cs)
    case Nil
    with r E''(1) show ?thesis by simp
  next
    case (Cons c cs')
    then have "before cs E \<noteq> []" by simp
    with E''(2) Cons show ?thesis by simp
  qed
  moreover have "cs \<noteq> [] \<longrightarrow> (\<exists>U R. undo E' = Ok U \<and> redo U = Ok R \<and> current_state R = current_state E')"
  proof
    assume ne: "cs \<noteq> []"
    then have "before cs E \<noteq> []" using lb by auto
    then have "undo_stack E' \<noteq> []" using u' by simp
    from undo_pop[OF this] obtain U where U: "undo E' = Ok U"
      "redo_stack U = redo_stack E' @ [current_state E']" by blast
    then have "redo_stack U \<noteq> []" by simp
    from redo_pop[OF this] obtain R where "redo U = Ok R" "current_state R = last (redo_stack U)" by blast
    with U show "\<exists>U R. undo E' = Ok U \<and> redo U = Ok R \<and> current_state R = current_state E'"
      by auto
  qed
  ultimately show ?thesis using r E''(1) by blast
qed

definition four_edits :: "command list" where
  \<comment> \<open>\<^verbatim>\<open>a\<close>, Enter, \<^verbatim>\<open>b\<close>, Backspace\<close>
  "four_edits = [Key CHR ''a'', Enter, Key CHR ''b'', Backspace]"

theorem undo_restores_edits_witness:
  "edits four_edits (EditorState None) \<and> length four_edits \<le> 50
   \<and> (\<exists>E'. run four_edits (EditorState None) = Ok E'
          \<and> (\<exists>E''. run (replicate (length four_edits) Undo) E' = Ok E''
                 \<and> current_state E'' = current_state (EditorState None))
          \<and> (\<exists>U R. undo E' = Ok U \<and> redo U = Ok R \<and> current_state R = current_state E'))"
proof -
  have e: "edits four_edits (EditorState None)" by code_simp
  have l: "length four_edits \<le> 50" by code_simp
  have n: "four_edits \<noteq> []" by (simp add: four_edits_def)
  from undo_restores_edits[OF e l] n e l show ?thesis by blast
qed

subsection \<open>C7: a block comment carried to the next line\<close>

definition slash_star_slash :: "string \<Rightarrow> read_outcome" where
  \<comment> \<open>a file of two lines, \<^verbatim>\<open>/*/\<close> and \<^verbatim>\<open>x\<close>\<close>
  "slash_star_slash name = Lines [[CHR ''/'', CHR ''*'', CHR ''/'', NL], [CHR ''x'', NL]]"

definition opened_c_file :: "editor_state result" where
  "opened_c_file = open_file_terminal (Some ''a.c'') None None slash_star_slash (EditorState None)"

text \<open>
  C7 says that when the first of two lines opens a block comment and does not close it,
  every character of the second line is classified block comment. The line \<^verbatim>\<open>/*/\<close> of
  a C file opens a comment that the scanner reports as still open, and the row stores
  that in \<^verbatim>\<open>open_comment\<close>; but the next row asks \<^verbatim>\<open>has_open_comment\<close>, which sees the
  line end in \<^verbatim>\<open>*/\<close> and answers no: the second line \<^verbatim>\<open>x\<close> is classified normal.
\<close>

theorem open_comment_not_carried:
  "outcome document opened_c_file = Ok [''/*/'', ''x'']
   \<and> get_syntax_highlighting ''/*/'' (select_syntax_highlight (Some ''a.c'')) False
       = ([HL_MLCOMMENT, HL_MLCOMMENT, HL_MLCOMMENT], True)
   \<and> outcome open_comments opened_c_file = Ok [True, False]
   \<and> outcome highlights opened_c_file
       = Ok [[HL_MLCOMMENT, HL_MLCOMMENT, HL_MLCOMMENT], [HL_NORMAL]]"
  by code_simp

subsection \<open>C8: the bound of the undo stack\<close>

text \<open>
  C8: in every state the editor reaches from its start, by any commands, the undo stack
  holds at most 50 snapshots. Edits run from such a state leave the last 50 of the
  snapshots pushed (the oldest are dropped from the front) and an empty redo stack. After
  60 edits the stack holds exactly the snapshots of the last 50: 50 undos return, the
  last one to the state after the tenth edit, and the next undo reports
  \<^verbatim>\<open>Nothing to undo\<close>.
\<close>

theorem undo_stack_bound:
  assumes "run cs (EditorState term_size) = Ok E" and "edits es E"
  shows "length (undo_stack E) \<le> 50
    \<and> (\<exists>E'. run es E = Ok E'
          \<and> undo_stack E' = drop (length (undo_stack E) + length es - 50) (undo_stack E @ before es E)
          \<and> length (undo_stack E') = min 50 (length (undo_stack E) + length es)
          \<and> (es \<noteq> [] \<longrightarrow> redo_stack E' = [])
          \<and> (length es = 60 \<longrightarrow>
               undo_stack E' = drop 10 (before es E) \<and> length (undo_stack E') = 50
               \<and> (\<exists>E''. run (replicate 50 Undo) E' = Ok E'' \<and> undo_stack E'' = []
                      \<and> current_state E'' = before es E ! 10
                      \<and> undo E'' = Ok (set_status_message ''Nothing to undo'' E''))))"
proof -
  have "bounded E" using bounded_EditorState assms(1) by (rule bounded_run)
  then have L: "length (undo_stack E) \<le> 50" by (simp add: bounded_def)
  from edits_run[OF assms(2)] obtain E' where r: "run es E = Ok E'" by blast
  have len: "length (undo_stack E') = min 50 (length (undo_stack E) + length es)"
    using assms(2) r L by (rule length_stack_after_edits)
  from stack_after_edits[OF assms(2) r] obtain k where
    k: "k \<le> length (undo_stack E) + length es - 50"
    and u: "undo_stack E' = drop k (undo_stack E @ before es E)"
    and rd: "es \<noteq> [] \<longrightarrow> redo_stack E' = []" by blast
  have lb: "length (before es E) = length es" using assms(2) by (rule length_before)
  have "length (undo_stack E') = length (undo_stack E) + length es - k"
    using u lb by simp
  with len k have keq: "k = length (undo_stack E) + length es - 50" by simp
  have u': "undo_stack E' = drop (length (undo_stack E) + length es - 50) (undo_stack E @ before es E)"
    using u keq by simp
  have sixty: "length es = 60 \<longrightarrow>
               undo_stack E' = drop 10 (before es E) \<and> length (undo_stack E') = 50
               \<and> (\<exists>E''. run (replicate 50 Undo) E' = Ok E'' \<and> undo_stack E'' = []
                      \<and> current_state E'' = before es E ! 10
                      \<and> undo E'' = Ok (set_status_message ''Nothing to undo'' E''))"
  proof
    assume n: "length es = 60"
    have d: "undo_stack E' = drop 10 (before es E)" using u' n L by simp
    have l50: "length (undo_stack E') = 50" using len n by simp
    have "undo_stack E' = [] @ undo_stack E'" by simp
    from undo_many[OF this] l50 obtain E'' where E'':
      "run (replicate 50 Undo) E' = Ok E''" "undo_stack E'' = []"
      "undo_stack E' \<noteq> [] \<longrightarrow> current_state E'' = hd (undo_stack E')" by auto
    have "undo_stack E' \<noteq> []" using l50 by auto
    then have "current_state E'' = hd (drop 10 (before es E))" using E''(3) d by simp
    also have "\<dots> = before es E ! 10" using lb n by (simp add: hd_drop_conv_nth)
    finally have c: "current_state E'' = before es E ! 10" .
    have "undo E'' = Ok (set_status_message ''Nothing to undo'' E'')"
      using E''(2) by (simp add: undo_def)
    with d l50 E'' c show "undo_stack E' = drop 10 (before es E) \<and> length (undo_stack E') = 50
               \<and> (\<exists>E''. run (replicate 50 Undo) E' = Ok E'' \<and> undo_stack E'' = []
                      \<and> current_state E'' = before es E ! 10
                      \<and> undo E'' = Ok (set_status_message ''Nothing to undo'' E''))"
      by blast
  qed
  from L r u' len rd sixty show ?thesis by blast
qed

definition sixty_edits :: "command list" where
  \<comment> \<open>30 times type \<^verbatim>\<open>a\<close> and delete it\<close>
  "sixty_edits = concat (replicate 30 [Key CHR ''a'', Backspace])"

theorem undo_stack_bound_witness:
  "run [] (EditorState None) = Ok (EditorState None)
   \<and> edits sixty_edits (EditorState None) \<and> length sixty_edits = 60
   \<and> (\<exists>E'. run sixty_edits (EditorState None) = Ok E'
          \<and> length (undo_stack E') = 50 \<and> redo_stack E' = []
          \<and> undo_stack E' = drop 10 (before sixty_edits (EditorState None))
          \<and> (\<exists>E''. run (replicate 50 Undo) E' = Ok E'' \<and> undo_stack E'' = []
                 \<and> current_state E'' = before sixty_edits (EditorState None) ! 10
                 \<and> undo E'' = Ok (set_status_message ''Nothing to undo'' E'')))"
proof -
  have r: "run [] (EditorState None) = Ok (EditorState None)" by simp
  have e: "edits sixty_edits (EditorState None)" by code_simp
  have l: "length sixty_edits = 60" by code_simp
  then have n: "sixty_edits \<noteq> []" by auto
  from undo_stack_bound[OF r e] l n r e show ?thesis by blast
qed

subsection \<open>C9: the stored sizes of a row\<close>

definition split_line :: "command list" where
  \<comment> \<open>type \<^verbatim>\<open>ab\<close> and press Enter between the two letters\<close>
  "split_line = [Key CHR ''a'', Key CHR ''b'', Arrow ARROW_LEFT, Enter]"

text \<open>
  C9 says that every editor operation keeps each row's \<^verbatim>\<open>content_size\<close> equal to the
  length of its content (and its \<^verbatim>\<open>rendered_size\<close> to the length of its rendered form).
  \<^verbatim>\<open>insert_newline\<close> assigns the shortened content to the row it splits and calls
  \<^verbatim>\<open>update_rendered\<close>, which recomputes the rendered size only: the first row is
  \<^verbatim>\<open>a\<close> with \<^verbatim>\<open>content_size\<close> 2.
\<close>

theorem content_size_stale_after_newline:
  "outcome document (run split_line (EditorState None)) = Ok [''a'', ''b'']
   \<and> outcome content_sizes (run split_line (EditorState None)) = Ok [2, 1]"
  by code_simp

subsection \<open>C10: the modified flag and the snapshots\<close>

text \<open>
  C10: a snapshot does not hold the modified flag (\<^verbatim>\<open>current_state\<close> is the same
  whatever the flag). Whenever undo or redo restores a state, the flag is set afterwards,
  and the row contents, the cursor x/y and the column and row offsets are those of the
  snapshot popped.
\<close>

theorem undo_redo_set_modified:
  "current_state (E\<lparr>modified := b\<rparr>) = current_state E
   \<and> (undo_stack E \<noteq> [] \<longrightarrow>
        (\<exists>E'. undo E = Ok E' \<and> modified E' \<and> current_state E' = last (undo_stack E)))
   \<and> (redo_stack E \<noteq> [] \<longrightarrow>
        (\<exists>E'. redo E = Ok E' \<and> modified E' \<and> current_state E' = last (redo_stack E)))"
proof (intro conjI impI)
  show "current_state (E\<lparr>modified := b\<rparr>) = current_state E"
    by (simp add: current_state_def)
next
  assume "undo_stack E \<noteq> []"
  from undo_pop[OF this] show "\<exists>E'. undo E = Ok E' \<and> modified E' \<and> current_state E' = last (undo_stack E)"
    by blast
next
  assume "redo_stack E \<noteq> []"
  from redo_pop[OF this] show "\<exists>E'. redo E = Ok E' \<and> modified E' \<and> current_state E' = last (redo_stack E)"
    by blast
qed

definition saved_session :: "command list" where
  \<comment> \<open>type \<^verbatim>\<open>ab\<close>, undo once and save: both stacks hold an entry, the flag is clear\<close>
  "saved_session =
     [Key CHR ''a'', Key CHR ''b'', Undo, Save False (Some ''f.txt'') None]"

theorem undo_redo_set_modified_witness:
  "undo_stack (after saved_session) \<noteq> [] \<and> redo_stack (after saved_session) \<noteq> []
   \<and> \<not> modified (after saved_session)
   \<and> (\<exists>E'. undo (after saved_session) = Ok E' \<and> modified E'
          \<and> current_state E' = last (undo_stack (after saved_session)))
   \<and> (\<exists>E'. redo (after saved_session) = Ok E' \<and> modified E'
          \<and> current_state E' = last (redo_stack (after saved_session)))"
proof -
  have u: "undo_stack (after saved_session) \<noteq> []" by code_simp
  have r: "redo_stack (after saved_session) \<noteq> []" by code_simp
  have m: "\<not> modified (after saved_session)" by code_simp
  from undo_redo_set_modified[where E = "after saved_session"] u r m show ?thesis by blast
qed

end
